theory Spec2Isabelle
  imports Complex_Main "HOL-Library.Sublist" "HOL-Library.Multiset"
begin

section \<open>Data model\<close>

text \<open>
  The catalog is the list of row dictionaries pandas builds from \<^verbatim>\<open>parts.csv\<close> after
  \<^verbatim>\<open>fillna("")\<close>. A row is modelled as a record with one optional field per key the
  engine reads. A text column holds a string; \<open>None\<close> is a key the dictionary does not have
  (\<^verbatim>\<open>p.get(k)\<close> is \<^verbatim>\<open>None\<close>). A numeric column holds a number or was blank; \<open>None\<close> there
  is a blank cell or an absent key, which every numeric read of the source
  (\<^verbatim>\<open>x or default\<close>) treats alike. Numbers are exact rationals: the binary rounding of
  Python's floats is not modelled. The empty dictionary \<^verbatim>\<open>{}\<close> is \<open>empty_part\<close>.
\<close>

record part =
  category :: "string option"
  brand :: "string option"
  model :: "string option"
  price_usd :: "rat option"
  socket :: "string option"
  ram_type :: "string option"
  vram_gb :: "rat option"
  length_mm :: "rat option"
  max_gpu_length_mm :: "rat option"
  psu_wattage :: "rat option"
  capacity_gb :: "rat option"
  form_factor :: "string option"

definition empty_part :: part where
  "empty_part = \<lparr>category = None, brand = None, model = None, price_usd = None,
     socket = None, ram_type = None, vram_gb = None, length_mm = None,
     max_gpu_length_mm = None, psu_wattage = None, capacity_gb = None,
     form_factor = None\<rparr>"

text \<open>The seven keys of the build dictionary, and the strings that name them.\<close>

datatype slot = GPU | CPU | Motherboard | RAM | Storage | PSU | Case

fun slot_name :: "slot \<Rightarrow> string" where
  "slot_name GPU = ''GPU''"
| "slot_name CPU = ''CPU''"
| "slot_name Motherboard = ''Motherboard''"
| "slot_name RAM = ''RAM''"
| "slot_name Storage = ''Storage''"
| "slot_name PSU = ''PSU''"
| "slot_name Case = ''Case''"

text \<open>
  A build maps each of the seven keys to \<open>None\<close> (Python's \<^verbatim>\<open>None\<close>) or to a dictionary.
  The owned set is a dictionary over the same keys.
\<close>

type_synonym build = "slot \<Rightarrow> part option"

datatype tier = Low | Mid | High

datatype storage_kind = HDD | SSD | NVMe

datatype level = Minimum | Recommended | Both | High_end

record reqs =
  min_ram :: int
  recommended_ram :: int
  cpu_cores :: int
  gpu_vram :: int
  min_gpu_tier :: tier
  storage_type :: storage_kind
  req_notes :: "string list"

section \<open>Python's value conventions\<close>

text \<open>\<^verbatim>\<open>not d\<close> for an optional dictionary: \<^verbatim>\<open>None\<close> and \<^verbatim>\<open>{}\<close> are false.\<close>

definition falsy :: "part option \<Rightarrow> bool" where
  "falsy d = (case d of None \<Rightarrow> True | Some p \<Rightarrow> p = empty_part)"

text \<open>\<^verbatim>\<open>a or b\<close> on optional dictionaries.\<close>

definition dict_or :: "part option \<Rightarrow> part option \<Rightarrow> part option" where
  "dict_or a b = (if falsy a then b else a)"

text \<open>\<^verbatim>\<open>d or {}\<close>.\<close>

definition or_empty :: "part option \<Rightarrow> part" where
  "or_empty d = (case d of None \<Rightarrow> empty_part | Some p \<Rightarrow> p)"

text \<open>\<^verbatim>\<open>x or d\<close> on a numeric cell: blank, absent and zero give the default.\<close>

definition num_or :: "rat option \<Rightarrow> rat \<Rightarrow> rat" where
  "num_or x d = (case x of None \<Rightarrow> d | Some r \<Rightarrow> if r = 0 then d else r)"

text \<open>\<^verbatim>\<open>int(x)\<close> on a number truncates towards zero.\<close>

definition py_int :: "rat \<Rightarrow> int" where
  "py_int r = (if 0 \<le> r then \<lfloor>r\<rfloor> else \<lceil>r\<rceil>)"

text \<open>\<^verbatim>\<open>money(v)\<close>: \<^verbatim>\<open>float(v or 0)\<close>.\<close>

definition money :: "rat option \<Rightarrow> rat" where
  "money v = num_or v 0"

definition price :: "part \<Rightarrow> rat" where
  "price p = money (price_usd p)"

text \<open>\<^verbatim>\<open>str(x or "")\<close> and \<^verbatim>\<open>str(x)\<close> on a text cell.\<close>

definition str_or :: "string option \<Rightarrow> string" where
  "str_or x = (case x of None \<Rightarrow> [] | Some s \<Rightarrow> s)"

definition py_str :: "string option \<Rightarrow> string" where
  "py_str x = (case x of None \<Rightarrow> ''None'' | Some s \<Rightarrow> s)"

section \<open>Strings\<close>

text \<open>
  Strings are ASCII. \<open>is_space\<close> is the white space \<^verbatim>\<open>str.strip\<close> and the pattern
  \<^verbatim>\<open>\s\<close> recognise there.
\<close>

definition is_space :: "char \<Rightarrow> bool" where
  "is_space c = (c = CHR 0x09 \<or> c = CHR 0x0A \<or> c = CHR 0x0B \<or> c = CHR 0x0C \<or> c = CHR 0x0D
     \<or> c = CHR 0x1C \<or> c = CHR 0x1D \<or> c = CHR 0x1E \<or> c = CHR 0x1F \<or> c = CHR '' '')"

definition strip :: "string \<Rightarrow> string" where
  "strip s = rev (dropWhile is_space (rev (dropWhile is_space s)))"

definition upper_char :: "char \<Rightarrow> char" where
  "upper_char c = (let n = (of_char c :: nat) in if 97 \<le> n \<and> n \<le> 122 then char_of (n - 32) else c)"

definition lower_char :: "char \<Rightarrow> char" where
  "lower_char c = (let n = (of_char c :: nat) in if 65 \<le> n \<and> n \<le> 90 then char_of (n + 32) else c)"

definition upper :: "string \<Rightarrow> string" where
  "upper s = map upper_char s"

definition lower :: "string \<Rightarrow> string" where
  "lower s = map lower_char s"

text \<open>\<^verbatim>\<open>s.split(c)\<close> for a one-character separator: every occurrence splits.\<close>

fun split_on :: "char \<Rightarrow> string \<Rightarrow> string list" where
  "split_on c [] = [[]]"
| "split_on c (x # xs) =
     (let r = split_on c xs in if x = c then [] # r else (x # hd r) # tl r)"

text \<open>\<^verbatim>\<open>re.sub(r"\s+", " ", s)\<close>: each run of white space becomes one blank.\<close>

fun squeeze_from :: "bool \<Rightarrow> string \<Rightarrow> string" where
  "squeeze_from in_run [] = []"
| "squeeze_from in_run (x # xs) =
     (if is_space x then (if in_run then squeeze_from True xs else CHR '' '' # squeeze_from True xs)
      else x # squeeze_from False xs)"

definition squeeze :: "string \<Rightarrow> string" where
  "squeeze s = squeeze_from False s"

text \<open>\<^verbatim>\<open>norm(s)\<close> of app.py.\<close>

definition norm :: "string option \<Rightarrow> string" where
  "norm s = squeeze (lower (strip (str_or s)))"

section \<open>compat.py\<close>

text \<open>\<^verbatim>\<open>ram_type_set\<close> of compat.py.\<close>

definition compat_ram_type_set :: "string option \<Rightarrow> string set" where
  "compat_ram_type_set v =
     (let s = strip (upper (str_or v)) in
      if s = [] then {}
      else if CHR ''/'' \<in> set s then set (filter (\<lambda>x. x \<noteq> []) (map strip (split_on CHR ''/'' s)))
      else if CHR '','' \<in> set s then set (filter (\<lambda>x. x \<noteq> []) (map strip (split_on CHR '','' s)))
      else {s})"

text \<open>
  A check returns \<^verbatim>\<open>(ok, message)\<close>. The two text messages are strings; the length message
  prints two floats, whose decimal rendering is not modelled, so it carries the two numbers.
\<close>

datatype message = Text string | Gpu_too_long rat rat

definition cpu_mobo :: "part option \<Rightarrow> part option \<Rightarrow> bool \<times> message" where
  "cpu_mobo cpu mobo =
     (if falsy cpu \<or> falsy mobo then (False, Text ''CPU or motherboard missing'')
      else if strip (str_or (socket (the cpu))) \<noteq> strip (str_or (socket (the mobo)))
      then (False, Text (''Socket mismatch ('' @ py_str (socket (the cpu)) @ '' vs ''
                          @ py_str (socket (the mobo)) @ '')''))
      else (True, Text []))"

definition ram_mobo :: "part option \<Rightarrow> part option \<Rightarrow> bool \<times> message" where
  "ram_mobo ram mobo =
     (if falsy ram \<or> falsy mobo then (False, Text ''RAM or motherboard missing'')
      else
        (let rset = compat_ram_type_set (ram_type (the ram));
             mset = compat_ram_type_set (ram_type (the mobo)) in
         if rset \<noteq> {} \<and> mset \<noteq> {} \<and> rset \<inter> mset = {}
         then (False, Text (''RAM type mismatch ('' @ py_str (ram_type (the ram)) @ '' vs ''
                             @ py_str (ram_type (the mobo)) @ '')''))
         else (True, Text [])))"

definition gpu_case :: "part option \<Rightarrow> part option \<Rightarrow> bool \<times> message" where
  "gpu_case gpu cs =
     (if falsy gpu \<or> falsy cs then (True, Text [])
      else
        (let gpu_len = num_or (length_mm (the gpu)) 0;
             case_len = num_or (max_gpu_length_mm (the cs)) 9999 in
         if gpu_len > case_len then (False, Gpu_too_long gpu_len case_len)
         else (True, Text [])))"

record report =
  compatible :: bool
  issues :: "message list"

text \<open>The three checks run in order; each failed check appends its message.\<close>

definition append_issue :: "bool \<times> message \<Rightarrow> message list \<Rightarrow> message list" where
  "append_issue r acc = (if \<not> fst r then acc @ [snd r] else acc)"

definition check_full_build_compatibility :: "build \<Rightarrow> report" where
  "check_full_build_compatibility b =
     (let i0 = [];
          i1 = append_issue (cpu_mobo (b CPU) (b Motherboard)) i0;
          i2 = append_issue (ram_mobo (b RAM) (b Motherboard)) i1;
          i3 = append_issue (gpu_case (b GPU) (b Case)) i2
      in \<lparr>compatible = (length i3 = 0), issues = i3\<rparr>)"

text \<open>\<^verbatim>\<open>recommend_parts_for_requirements\<close>: the test that drops a part.\<close>

definition tier_floor :: "tier \<Rightarrow> int" where
  "tier_floor t = (case t of High \<Rightarrow> 12 | Mid \<Rightarrow> 8 | Low \<Rightarrow> 4)"

definition int_or :: "int \<Rightarrow> int \<Rightarrow> int" where
  "int_or x d = (if x = 0 then d else x)"

definition dropped :: "reqs \<Rightarrow> int \<Rightarrow> part \<Rightarrow> bool" where
  "dropped rq budget p =
     (let req_ram = int_or (recommended_ram rq) 16;
          req_vram = int_or (gpu_vram rq) 0;
          t = min_gpu_tier rq;
          cat = category p in
      (cat = Some ''RAM'' \<and> py_int (num_or (capacity_gb p) 0) < min req_ram 32)
      \<or> (cat = Some ''GPU'' \<and>
           (let vram = py_int (num_or (vram_gb p) 0);
                pr = num_or (price_usd p) 0 in
            (req_vram > 0 \<and> vram < req_vram)
            \<or> (t = High \<and> vram < 12)
            \<or> (t = Mid \<and> vram < 8)
            \<or> (t = Low \<and> vram < 4)
            \<or> (budget \<noteq> 0 \<and> t \<noteq> High \<and> pr > of_int budget * (4 / 5)))))"

definition recommend_parts_for_requirements :: "reqs \<Rightarrow> part list \<Rightarrow> int \<Rightarrow> part list" where
  "recommend_parts_for_requirements rq parts budget = filter (\<lambda>p. \<not> dropped rq budget p) parts"

section \<open>app.py: helpers of the build generator\<close>

text \<open>\<^verbatim>\<open>ram_type_set\<close> of app.py; Python's \<^verbatim>\<open>x in s\<close> on strings is \<open>sublist\<close>.\<close>

definition app_ram_type_set :: "string option \<Rightarrow> string set" where
  "app_ram_type_set v =
     (let s = upper (str_or v) in
      (if sublist ''DDR4'' s then {''DDR4''} else {}) \<union> (if sublist ''DDR5'' s then {''DDR5''} else {}))"

definition parts_by_category :: "part list \<Rightarrow> string \<Rightarrow> part list" where
  "parts_by_category parts cat = filter (\<lambda>p. strip (str_or (category p)) = cat) parts"

text \<open>
  \<^verbatim>\<open>pick_best_within\<close>: the loop keeps the best item and its score, starting from
  \<^verbatim>\<open>None\<close> and \<^verbatim>\<open>-1e18\<close>.
\<close>

fun pick_loop :: "rat \<Rightarrow> (part \<Rightarrow> rat) \<Rightarrow> part list \<Rightarrow> part option \<times> rat \<Rightarrow> part option" where
  "pick_loop cap score_fn [] (best, best_score) = best"
| "pick_loop cap score_fn (it # its) (best, best_score) =
     (if price it \<le> 0 then pick_loop cap score_fn its (best, best_score)
      else if price it > cap then pick_loop cap score_fn its (best, best_score)
      else if score_fn it > best_score then pick_loop cap score_fn its (Some it, score_fn it)
      else pick_loop cap score_fn its (best, best_score))"

definition pick_best_within :: "part list \<Rightarrow> rat \<Rightarrow> (part \<Rightarrow> rat) \<Rightarrow> part option" where
  "pick_best_within items cap score_fn = pick_loop cap score_fn items (None, - (10 ^ 18))"

definition gpu_score :: "part \<Rightarrow> rat" where
  "gpu_score g = of_int (py_int (num_or (vram_gb g) 0)) * 10000 + price g"

definition cpu_score :: "part \<Rightarrow> rat" where
  "cpu_score c = price c"

definition is_nvme :: "part \<Rightarrow> bool" where
  "is_nvme s = (let ff = lower (str_or (form_factor s)) in sublist ''nvme'' ff \<or> sublist ''m.2'' ff)"

definition storage_score :: "part \<Rightarrow> rat" where
  "storage_score s =
     of_int (py_int (num_or (capacity_gb s) 0)) + (if is_nvme s then 5000 else 0) + price s"

definition ram_score :: "part \<Rightarrow> bool \<Rightarrow> rat" where
  "ram_score r prefer_rgb =
     of_int (py_int (num_or (capacity_gb r) 0)) * 100
       + (if prefer_rgb \<and> sublist ''rgb'' (norm (model r)) then 5000 else 0) + price r"

text \<open>\<^verbatim>\<open>xs.sort(key=price)\<close> is a stable sort, as \<open>sort_key\<close> is.\<close>

definition by_price :: "part list \<Rightarrow> part list" where
  "by_price xs = sort_key price xs"

text \<open>\<^verbatim>\<open>sorted(xs, key=price)[0] if xs else None\<close>.\<close>

definition cheapest :: "part list \<Rightarrow> part option" where
  "cheapest xs = (case by_price xs of [] \<Rightarrow> None | x # _ \<Rightarrow> Some x)"

text \<open>\<^verbatim>\<open>xs[-1] if xs else None\<close> after sorting by price.\<close>

definition priciest :: "part list \<Rightarrow> part option" where
  "priciest xs = (if xs = [] then None else Some (last (by_price xs)))"

definition pick_mobo_for_cpu :: "part \<Rightarrow> part list \<Rightarrow> string option \<Rightarrow> part option" where
  "pick_mobo_for_cpu cpu pool preferred_ram =
     (let mobos = parts_by_category pool ''Motherboard'';
          sock = strip (str_or (socket cpu));
          candidates = filter (\<lambda>m. strip (str_or (socket m)) = sock) mobos;
          candidates2 =
            (if str_or preferred_ram \<noteq> [] then
               (let pr = app_ram_type_set preferred_ram in
                filter (\<lambda>m. pr = {} \<or> app_ram_type_set (ram_type m) \<inter> pr \<noteq> {}) candidates)
             else candidates)
      in priciest candidates2)"

definition pick_ram_for_mobo :: "part \<Rightarrow> part list \<Rightarrow> int \<Rightarrow> bool \<Rightarrow> rat \<Rightarrow> part option" where
  "pick_ram_for_mobo mobo pool need_gb prefer_rgb cap =
     (let rams = parts_by_category pool ''RAM'';
          mset = app_ram_type_set (ram_type mobo);
          c1 = filter (\<lambda>r. mset = {} \<or> app_ram_type_set (ram_type r) \<inter> mset \<noteq> {}) rams;
          c2 = filter (\<lambda>r. py_int (num_or (capacity_gb r) 0) \<ge> need_gb) c1;
          c3 = by_price c2
      in dict_or (pick_best_within c3 cap (\<lambda>r. ram_score r prefer_rgb))
                 (case c3 of [] \<Rightarrow> None | x # _ \<Rightarrow> Some x))"

definition pick_case_for_gpu :: "part option \<Rightarrow> part list \<Rightarrow> part option" where
  "pick_case_for_gpu gpu pool =
     (let cases = parts_by_category pool ''Case'' in
      if cases = [] then None
      else if falsy gpu \<or> num_or (length_mm (the gpu)) 0 = 0 then Some (last (by_price cases))
      else
        (let gl = money (length_mm (the gpu));
             fit = filter (\<lambda>c. money (max_gpu_length_mm c) \<ge> gl) cases;
             fit2 = (if fit = [] then cases else fit)
         in Some (last (by_price fit2))))"

definition pick_psu_for_gpu :: "part option \<Rightarrow> part list \<Rightarrow> bool \<Rightarrow> part option" where
  "pick_psu_for_gpu gpu pool quiet =
     (let psus = parts_by_category pool ''PSU'' in
      if psus = [] then None
      else
        (let need = (if falsy gpu then 650 else py_int (num_or (psu_wattage (the gpu)) 650));
             qualifying = filter (\<lambda>p. py_int (num_or (psu_wattage p) 0) \<ge> need) psus;
             candidates = by_price (if qualifying = [] then psus else qualifying)
         in if quiet then Some (last candidates)
            else Some (candidates ! min (length candidates - 1) 2)))"

section \<open>app.py: the build generator\<close>

text \<open>The level adjustment of the requirements profile (\<^verbatim>\<open># Tier tuning\<close>).\<close>

definition tier_tuning :: "level \<Rightarrow> reqs \<Rightarrow> reqs" where
  "tier_tuning lvl rq =
     (if lvl = Minimum then rq\<lparr>recommended_ram := max 16 (int_or (min_ram rq) 8)\<rparr>
      else if lvl = High_end then
        rq\<lparr>recommended_ram := max 32 (int_or (recommended_ram rq) 16),
           min_gpu_tier := High, storage_type := NVMe\<rparr>
      else rq)"

definition categories :: "slot list" where
  "categories = [GPU, CPU, Motherboard, RAM, Storage, PSU, Case]"

definition is_owned :: "build \<Rightarrow> slot \<Rightarrow> bool" where
  "is_owned owned c = (owned c \<noteq> None)"

fun weights :: "slot \<Rightarrow> rat" where
  "weights GPU = 42 / 100"
| "weights CPU = 20 / 100"
| "weights Motherboard = 12 / 100"
| "weights RAM = 10 / 100"
| "weights Storage = 8 / 100"
| "weights PSU = 5 / 100"
| "weights Case = 3 / 100"

definition present :: "build \<Rightarrow> slot list" where
  "present owned = filter (\<lambda>c. \<not> is_owned owned c) categories"

definition weight_sum :: "build \<Rightarrow> rat" where
  "weight_sum owned = (if present owned = [] then 1 else sum_list (map weights (present owned)))"

definition alloc :: "int \<Rightarrow> build \<Rightarrow> slot \<Rightarrow> rat" where
  "alloc budget owned cat = of_int budget * (weights cat / weight_sum owned)"

text \<open>
  The price cap of a capped category: \<^verbatim>\<open>min(float(budget), alloc(cat) * factor)\<close>. The source
  caps CPU, RAM, GPU and Storage; the build generator below reads \<open>cap_of\<close> at these four only.
\<close>

definition cap_factor :: "level \<Rightarrow> slot \<Rightarrow> rat" where
  "cap_factor lvl cat =
     (case cat of
        CPU \<Rightarrow> (if lvl = High_end then 125 / 100 else 110 / 100)
      | GPU \<Rightarrow> (if lvl = High_end then 130 / 100 else 120 / 100)
      | RAM \<Rightarrow> 125 / 100
      | Storage \<Rightarrow> 130 / 100
      | _ \<Rightarrow> 1)"

definition cap_of :: "int \<Rightarrow> build \<Rightarrow> level \<Rightarrow> slot \<Rightarrow> rat" where
  "cap_of budget owned lvl cat = min (of_int budget) (alloc budget owned cat * cap_factor lvl cat)"

definition select_cpu :: "part list \<Rightarrow> int \<Rightarrow> build \<Rightarrow> level \<Rightarrow> build \<Rightarrow> build" where
  "select_cpu filtered budget owned lvl b =
     (if is_owned owned CPU then b
      else
        (let cpus = parts_by_category filtered ''CPU'';
             cpu_cap = cap_of budget owned lvl CPU
         in b(CPU := dict_or (pick_best_within cpus cpu_cap cpu_score) (cheapest cpus))))"

definition select_mobo :: "part list \<Rightarrow> int \<Rightarrow> build \<Rightarrow> build \<Rightarrow> build" where
  "select_mobo filtered budget owned b =
     (if is_owned owned Motherboard then b
      else
        (let cpu = or_empty (b CPU);
             preferred_ram = (if budget \<ge> 900 then ''DDR5'' else ''DDR4'');
             mobo = dict_or (pick_mobo_for_cpu cpu filtered (Some preferred_ram))
                            (pick_mobo_for_cpu cpu filtered None);
             mobo2 = (if falsy mobo then cheapest (parts_by_category filtered ''Motherboard'')
                      else mobo)
         in b(Motherboard := mobo2)))"

definition select_ram :: "reqs \<Rightarrow> part list \<Rightarrow> int \<Rightarrow> build \<Rightarrow> level \<Rightarrow> bool \<Rightarrow> build \<Rightarrow> build" where
  "select_ram rq filtered budget owned lvl prefer_rgb b =
     (if is_owned owned RAM then b
      else
        (let mobo = or_empty (b Motherboard);
             need0 = int_or (recommended_ram rq) 16;
             need_gb = (if lvl = High_end then max 32 need0 else need0);
             ram_cap = cap_of budget owned lvl RAM;
             r = pick_ram_for_mobo mobo filtered need_gb prefer_rgb ram_cap;
             r2 = (if falsy r then cheapest (parts_by_category filtered ''RAM'') else r)
         in b(RAM := r2)))"

definition select_gpu :: "part list \<Rightarrow> part list \<Rightarrow> int \<Rightarrow> build \<Rightarrow> level \<Rightarrow> build \<Rightarrow> build" where
  "select_gpu PARTS filtered budget owned lvl b =
     (if is_owned owned GPU then b
      else
        (let gpus = parts_by_category filtered ''GPU'';
             gpu_cap = cap_of budget owned lvl GPU;
             g = dict_or (pick_best_within gpus gpu_cap gpu_score) (cheapest gpus);
             g2 = (if falsy g then cheapest (parts_by_category PARTS ''GPU'') else g)
         in b(GPU := g2)))"

definition storage_ok :: "storage_kind \<Rightarrow> int \<Rightarrow> part \<Rightarrow> bool" where
  "storage_ok desired need_gb s =
     (let cap = py_int (num_or (capacity_gb s) 0);
          ff = lower (str_or (form_factor s))
      in if cap < need_gb then False
         else if desired = NVMe then sublist ''nvme'' ff \<or> sublist ''m.2'' ff
         else if desired = SSD then \<not> sublist ''hdd'' ff
         else True)"

definition select_storage :: "reqs \<Rightarrow> part list \<Rightarrow> int \<Rightarrow> build \<Rightarrow> level \<Rightarrow> build \<Rightarrow> build" where
  "select_storage rq filtered budget owned lvl b =
     (if is_owned owned Storage then b
      else
        (let stor = parts_by_category filtered ''Storage'';
             need_gb = (if budget \<ge> 1800 \<or> lvl = High_end then 2000 else 1000);
             oks = filter (storage_ok (storage_type rq) need_gb) stor;
             candidates = (if oks = [] then stor else oks);
             storage_cap = cap_of budget owned lvl Storage
         in b(Storage := dict_or (pick_best_within candidates storage_cap storage_score)
                                (cheapest candidates))))"

definition select_case :: "part list \<Rightarrow> build \<Rightarrow> build \<Rightarrow> build" where
  "select_case filtered owned b =
     (if is_owned owned Case then b else b(Case := pick_case_for_gpu (b GPU) filtered))"

definition select_psu :: "part list \<Rightarrow> build \<Rightarrow> bool \<Rightarrow> build \<Rightarrow> build" where
  "select_psu filtered owned quiet b =
     (if is_owned owned PSU then b else b(PSU := pick_psu_for_gpu (b GPU) filtered quiet))"

text \<open>\<^verbatim>\<open># Ensure nothing is None by falling back to cheapest per category\<close>.\<close>

definition fill_one :: "part list \<Rightarrow> build \<Rightarrow> slot \<Rightarrow> build" where
  "fill_one PARTS b cat =
     (if b cat = None
      then b(cat := Some (or_empty (cheapest (parts_by_category PARTS (slot_name cat)))))
      else b)"

definition fill_missing :: "part list \<Rightarrow> build \<Rightarrow> build" where
  "fill_missing PARTS b = foldl (fill_one PARTS) b categories"

text \<open>\<^verbatim>\<open># Total of missing only\<close>.\<close>

definition total_missing :: "build \<Rightarrow> build \<Rightarrow> rat" where
  "total_missing owned b =
     sum_list (map (\<lambda>c. price (or_empty (b c))) (filter (\<lambda>c. \<not> is_owned owned c) categories))"

text \<open>
  The downgrade loop over the priority list: the state is the build and the running total;
  \<^verbatim>\<open>break\<close> returns the state as it is.
\<close>

definition cheaper_than :: "part list \<Rightarrow> slot \<Rightarrow> rat \<Rightarrow> part list" where
  "cheaper_than PARTS cat cur_price =
     by_price (filter (\<lambda>p. 0 < price p \<and> price p < cur_price)
                      (parts_by_category PARTS (slot_name cat)))"

fun downgrade :: "part list \<Rightarrow> int \<Rightarrow> build \<Rightarrow> slot list \<Rightarrow> build \<times> rat \<Rightarrow> build \<times> rat" where
  "downgrade PARTS budget owned [] (b, tot) = (b, tot)"
| "downgrade PARTS budget owned (cat # cats) (b, tot) =
     (if tot \<le> of_int budget then (b, tot)
      else if is_owned owned cat then downgrade PARTS budget owned cats (b, tot)
      else
        (case cheaper_than PARTS cat (price (or_empty (b cat))) of
           [] \<Rightarrow> downgrade PARTS budget owned cats (b, tot)
         | p # _ \<Rightarrow>
             (let b2 = b(cat := Some p)
              in downgrade PARTS budget owned cats (b2, total_missing owned b2))))"

definition priority :: "slot list" where
  "priority = [GPU, CPU, Motherboard, RAM, Storage, PSU, Case]"

text \<open>
  \<^verbatim>\<open>build_always\<close>. The catalog \<^verbatim>\<open>PARTS\<close> is a parameter, and so are the three values the
  source reads off the message: the requirements profile and the two preference flags.
  \<open>selected\<close> is the body up to and including the fallback loop, in the order of the source
  (owned entries, CPU, Motherboard, RAM, GPU, Storage, Case, PSU, fallback); \<open>build_always\<close>
  adds the total and the downgrade loop.
\<close>

definition selected :: "part list \<Rightarrow> reqs \<Rightarrow> bool \<Rightarrow> bool \<Rightarrow> int \<Rightarrow> build \<Rightarrow> level \<Rightarrow> build" where
  "selected PARTS rq0 prefer_rgb prefer_quiet budget owned lvl =
     (let rq = tier_tuning lvl rq0;
          f = recommend_parts_for_requirements rq PARTS budget;
          filtered = (if f = [] then PARTS else f);
          b0 = owned;
          b1 = select_cpu filtered budget owned lvl b0;
          b2 = select_mobo filtered budget owned b1;
          b3 = select_ram rq filtered budget owned lvl prefer_rgb b2;
          b4 = select_gpu PARTS filtered budget owned lvl b3;
          b5 = select_storage rq filtered budget owned lvl b4;
          b6 = select_case filtered owned b5;
          b7 = select_psu filtered owned prefer_quiet b6
      in fill_missing PARTS b7)"

definition build_always ::
  "part list \<Rightarrow> reqs \<Rightarrow> bool \<Rightarrow> bool \<Rightarrow> int \<Rightarrow> build \<Rightarrow> level \<Rightarrow> build \<times> rat" where
  "build_always PARTS rq0 prefer_rgb prefer_quiet budget owned lvl =
     (let b = selected PARTS rq0 prefer_rgb prefer_quiet budget owned lvl;
          tot = total_missing owned b
      in if tot > of_int budget then downgrade PARTS budget owned priority (b, tot)
         else (b, tot))"

section \<open>Example inputs\<close>

text \<open>A small catalog and a default profile, used to run the definitions on concrete inputs.\<close>

definition ex_reqs :: reqs where
  "ex_reqs = \<lparr>min_ram = 8, recommended_ram = 16, cpu_cores = 4, gpu_vram = 0,
     min_gpu_tier = Low, storage_type = SSD, req_notes = []\<rparr>"

definition ex_gpu_x :: part where
  "ex_gpu_x = empty_part\<lparr>category := Some ''GPU'', model := Some ''X'',
     price_usd := Some 300, vram_gb := Some 8\<rparr>"

definition ex_gpu_y :: part where
  "ex_gpu_y = empty_part\<lparr>category := Some ''GPU'', model := Some ''Y'',
     price_usd := Some 100, vram_gb := Some 4\<rparr>"

definition ex_mobo_d4 :: part where
  "ex_mobo_d4 = empty_part\<lparr>category := Some ''Motherboard'', model := Some ''M4'',
     price_usd := Some 100, socket := Some ''AM4'', ram_type := Some ''DDR4''\<rparr>"

definition ex_mobo_d5 :: part where
  "ex_mobo_d5 = empty_part\<lparr>category := Some ''Motherboard'', model := Some ''M5'',
     price_usd := Some 700, socket := Some ''AM4'', ram_type := Some ''DDR5''\<rparr>"

definition ex_cpu :: part where
  "ex_cpu = empty_part\<lparr>category := Some ''CPU'', model := Some ''C'',
     price_usd := Some 90, socket := Some ''AM4''\<rparr>"

definition ex_case :: part where
  "ex_case = empty_part\<lparr>category := Some ''Case'', model := Some ''K'',
     price_usd := Some 60, max_gpu_length_mm := Some 360\<rparr>"

definition ex_psu :: "rat \<Rightarrow> rat \<Rightarrow> part" where
  "ex_psu w p = empty_part\<lparr>category := Some ''PSU'', price_usd := Some p, psu_wattage := Some w\<rparr>"

definition ex_psus :: "part list" where
  "ex_psus = [ex_psu 1000 200, ex_psu 550 50, ex_psu 850 120, ex_psu 650 70, ex_psu 750 90]"

definition ex_catalog :: "part list" where
  "ex_catalog = [ex_gpu_x, ex_gpu_y, ex_mobo_d4, ex_mobo_d5, ex_cpu]"

text \<open>The dictionary \<^verbatim>\<open>detect_owned_parts\<close> makes for an owned RTX 3090; its price is blank.\<close>

definition ex_owned_gpu :: part where
  "ex_owned_gpu = empty_part\<lparr>category := Some ''GPU'', brand := Some ''NVIDIA'',
     model := Some ''GeForce RTX 3090''\<rparr>"

text \<open>A catalog row whose price cell is blank.\<close>

definition ex_gpu_unpriced :: part where
  "ex_gpu_unpriced = empty_part\<lparr>category := Some ''GPU'', model := Some ''U'', vram_gb := Some 8\<rparr>"

definition ex_catalog_unpriced :: "part list" where
  "ex_catalog_unpriced = [ex_gpu_x, ex_gpu_y, ex_gpu_unpriced, ex_mobo_d4, ex_mobo_d5, ex_cpu]"

definition no_owned :: build where
  "no_owned = (\<lambda>c. None)"

lemmas ex_defs = ex_reqs_def ex_gpu_x_def ex_gpu_y_def ex_mobo_d4_def ex_mobo_d5_def
  ex_cpu_def ex_case_def ex_catalog_def empty_part_def no_owned_def ex_psu_def ex_psus_def ex_owned_gpu_def
  ex_gpu_unpriced_def ex_catalog_unpriced_def

section \<open>The level adjustment\<close>

text \<open>
  C9. Level \<open>minimum\<close> sets \<open>recommended_ram\<close> to \<open>max 16 min_ram\<close>; level \<open>high_end\<close> sets it
  to \<open>max 32 recommended_ram\<close>, the GPU tier to high and the storage type to NVMe. The
  adjusted profile equals the old one with exactly these fields updated, so no other field
  changes.
\<close>

theorem tier_tuning_levels:
  "tier_tuning Minimum rq = rq\<lparr>recommended_ram := max 16 (min_ram rq)\<rparr>
   \<and> tier_tuning High_end rq =
       rq\<lparr>recommended_ram := max 32 (recommended_ram rq), min_gpu_tier := High,
          storage_type := NVMe\<rparr>"
  by (simp add: tier_tuning_def int_or_def max_def)

section \<open>The compatibility checker\<close>

text \<open>
  C3, as the code has it. With a missing operand (\<^verbatim>\<open>None\<close> or \<^verbatim>\<open>{}\<close>) the socket check and
  the RAM-type check report incompatible with their missing-part message; the GPU/case
  length check passes with an empty message.
\<close>

theorem missing_operand_reports:
  "(falsy cpu \<or> falsy mobo \<longrightarrow> cpu_mobo cpu mobo = (False, Text ''CPU or motherboard missing''))
   \<and> (falsy ram \<or> falsy mobo \<longrightarrow> ram_mobo ram mobo = (False, Text ''RAM or motherboard missing''))
   \<and> (falsy gpu \<or> falsy cs \<longrightarrow> gpu_case gpu cs = (True, Text []))"
  by (simp add: cpu_mobo_def ram_mobo_def gpu_case_def)

theorem missing_operand_reports_witness:
  "falsy None \<and> cpu_mobo None (Some ex_mobo_d4) = (False, Text ''CPU or motherboard missing'')
   \<and> ram_mobo None (Some ex_mobo_d4) = (False, Text ''RAM or motherboard missing'')
   \<and> gpu_case None (Some ex_case) = (True, Text [])"
  using missing_operand_reports [of None "Some ex_mobo_d4" None None "Some ex_case"]
  by (simp add: falsy_def)

text \<open>
  C3 as stated fails for the length check: a build whose GPU entry is the empty placeholder
  passes the GPU/case check.
\<close>

theorem gpu_case_silent_pass_counterexample:
  "falsy (Some empty_part) \<and> fst (gpu_case (Some empty_part) (Some ex_case))"
  by (simp add: gpu_case_def falsy_def)

text \<open>
  C7. The issues of the report are the messages of the failed checks, in the order socket
  check, RAM-type check, length check; the report is compatible exactly when there are no
  issues; and when CPU and motherboard are both present with different sockets, the first
  issue is the socket message, which prints both socket values.
\<close>

theorem compatibility_report:
  "issues (check_full_build_compatibility b) =
     map snd (filter (\<lambda>r. \<not> fst r)
       [cpu_mobo (b CPU) (b Motherboard), ram_mobo (b RAM) (b Motherboard),
        gpu_case (b GPU) (b Case)])
   \<and> (compatible (check_full_build_compatibility b)
        \<longleftrightarrow> issues (check_full_build_compatibility b) = [])
   \<and> (\<not> falsy (b CPU) \<and> \<not> falsy (b Motherboard)
        \<and> strip (str_or (socket (the (b CPU)))) \<noteq> strip (str_or (socket (the (b Motherboard))))
        \<longrightarrow> (\<exists>rest. issues (check_full_build_compatibility b) =
              Text (''Socket mismatch ('' @ py_str (socket (the (b CPU))) @ '' vs ''
                    @ py_str (socket (the (b Motherboard))) @ '')'') # rest))"
  by (simp add: check_full_build_compatibility_def append_issue_def cpu_mobo_def)

theorem compatibility_report_witness:
  "issues (check_full_build_compatibility
      (no_owned(CPU := Some (ex_cpu\<lparr>socket := Some ''LGA1700''\<rparr>), Motherboard := Some ex_mobo_d4)))
     = [Text ''Socket mismatch (LGA1700 vs AM4)'', Text ''RAM or motherboard missing'']
   \<and> \<not> compatible (check_full_build_compatibility
      (no_owned(CPU := Some (ex_cpu\<lparr>socket := Some ''LGA1700''\<rparr>), Motherboard := Some ex_mobo_d4)))"
  using compatibility_report
    [of "no_owned(CPU := Some (ex_cpu\<lparr>socket := Some ''LGA1700''\<rparr>), Motherboard := Some ex_mobo_d4)"]
  by (simp add: ex_defs falsy_def cpu_mobo_def ram_mobo_def gpu_case_def strip_def is_space_def
        str_or_def py_str_def)

section \<open>The candidate filter\<close>

text \<open>
  C6, as the code has it. A part whose category is \<^verbatim>\<open>GPU\<close> survives the filter exactly when
  none of these holds: its VRAM is below a positive required VRAM; its VRAM is below the tier
  floor; the budget is not zero, the tier is not high and its price exceeds 80 percent of
  the budget. With budget zero the price cut is off.
\<close>

theorem gpu_filter_rule:
  "category p = Some ''GPU'' \<Longrightarrow>
   (p \<in> set (recommend_parts_for_requirements rq parts budget)) \<longleftrightarrow>
     (p \<in> set parts \<and>
      \<not> ((0 < gpu_vram rq \<and> py_int (num_or (vram_gb p) 0) < gpu_vram rq)
         \<or> py_int (num_or (vram_gb p) 0) < tier_floor (min_gpu_tier rq)
         \<or> (budget \<noteq> 0 \<and> min_gpu_tier rq \<noteq> High \<and> price p > of_int budget * (4 / 5))))"
  by (cases "min_gpu_tier rq")
     (auto simp add: recommend_parts_for_requirements_def dropped_def Let_def int_or_def
        tier_floor_def price_def money_def)

theorem gpu_filter_rule_witness:
  "category ex_gpu_x = Some ''GPU''
   \<and> ex_gpu_x \<in> set (recommend_parts_for_requirements ex_reqs [ex_gpu_x, ex_gpu_y] 1000)
   \<and> ex_gpu_x \<notin> set (recommend_parts_for_requirements ex_reqs [ex_gpu_x, ex_gpu_y] 300)"
  using gpu_filter_rule [of ex_gpu_x ex_reqs "[ex_gpu_x, ex_gpu_y]" 1000]
    gpu_filter_rule [of ex_gpu_x ex_reqs "[ex_gpu_x, ex_gpu_y]" 300]
  by (simp add: ex_defs py_int_def num_or_def tier_floor_def price_def money_def)

text \<open>
  C6 as stated fails at budget zero: with a tier that is not high, a GPU priced above 80
  percent of the budget (above zero) is kept.
\<close>

theorem gpu_price_cut_budget_zero_counterexample:
  "category ex_gpu_x = Some ''GPU'' \<and> min_gpu_tier ex_reqs \<noteq> High
   \<and> price ex_gpu_x > of_int 0 * (4 / 5)
   \<and> ex_gpu_x \<in> set (recommend_parts_for_requirements ex_reqs [ex_gpu_x] 0)"
  by (simp add: ex_defs recommend_parts_for_requirements_def dropped_def Let_def int_or_def
        py_int_def num_or_def price_def money_def)

section \<open>PSU selection\<close>

lemma sorted_key_le_last:
  "sorted (map f xs) \<Longrightarrow> x \<in> set xs \<Longrightarrow> f x \<le> f (last xs)"
proof (induction xs)
  case Nil
  then show ?case by simp
next
  case (Cons y ys)
  then show ?case by (cases "ys = []") auto
qed

lemma by_price_sorted: "sorted (map price (by_price xs))"
  by (simp add: by_price_def)

lemma by_price_set: "set (by_price xs) = set xs"
  by (simp add: by_price_def)

lemma by_price_mset: "mset (by_price xs) = mset xs"
  by (simp add: by_price_def)

lemma by_price_length: "length (by_price xs) = length xs"
  by (simp add: by_price_def)

lemma by_price_Nil_iff: "by_price xs = [] \<longleftrightarrow> xs = []"
  using by_price_length [of xs] by (metis length_0_conv)

lemma price_le_last_by_price: "q \<in> set xs \<Longrightarrow> price q \<le> price (last (by_price xs))"
  using sorted_key_le_last [OF by_price_sorted, of q xs] by (simp add: by_price_set)

text \<open>
  C8. With \<open>psus\<close> the PSUs of the pool: the required wattage is the GPU's declared PSU wattage,
  or 650 when there is no GPU or it declares none; the candidates are the PSUs that supply at
  least that wattage, or all PSUs when none does; ranked by price (a sorted rearrangement of
  the candidates), prefer-quiet picks the last, which no candidate exceeds in price, and
  otherwise the pick is the third of the ranking, or the last when it has fewer than three.
  Without any PSU the result is \<^verbatim>\<open>None\<close>.
\<close>

theorem psu_selection:
  "(let psus = parts_by_category pool ''PSU'';
        need = (if falsy gpu then 650 else py_int (num_or (psu_wattage (the gpu)) 650));
        qualifying = filter (\<lambda>p. need \<le> py_int (num_or (psu_wattage p) 0)) psus;
        cands = (if qualifying = [] then psus else qualifying);
        ranked = by_price cands
    in (psus = [] \<longrightarrow> pick_psu_for_gpu gpu pool quiet = None)
       \<and> (psus \<noteq> [] \<longrightarrow>
            sorted (map price ranked) \<and> mset ranked = mset cands
            \<and> pick_psu_for_gpu gpu pool True = Some (last ranked)
            \<and> (\<forall>q \<in> set cands. price q \<le> price (last ranked))
            \<and> pick_psu_for_gpu gpu pool False =
                Some (if 3 \<le> length ranked then ranked ! 2 else last ranked)))"
proof -
  define psus where "psus = parts_by_category pool ''PSU''"
  define need where "need = (if falsy gpu then 650 else py_int (num_or (psu_wattage (the gpu)) 650))"
  define qualifying where "qualifying = filter (\<lambda>p. need \<le> py_int (num_or (psu_wattage p) 0)) psus"
  define cands where "cands = (if qualifying = [] then psus else qualifying)"
  define ranked where "ranked = by_price cands"
  have none: "psus = [] \<longrightarrow> pick_psu_for_gpu gpu pool quiet = None"
    by (simp add: pick_psu_for_gpu_def psus_def)
  have some: "sorted (map price ranked) \<and> mset ranked = mset cands
            \<and> pick_psu_for_gpu gpu pool True = Some (last ranked)
            \<and> (\<forall>q \<in> set cands. price q \<le> price (last ranked))
            \<and> pick_psu_for_gpu gpu pool False =
                Some (if 3 \<le> length ranked then ranked ! 2 else last ranked)" if ne: "psus \<noteq> []"
  proof -
    have cne: "cands \<noteq> []" using ne by (simp add: cands_def)
    then have rne: "ranked \<noteq> []" by (simp add: ranked_def by_price_Nil_iff)
    have q: "pick_psu_for_gpu gpu pool True = Some (last ranked)"
      using ne unfolding ranked_def cands_def qualifying_def need_def psus_def
      by (simp add: pick_psu_for_gpu_def Let_def)
    have nq: "pick_psu_for_gpu gpu pool False = Some (ranked ! min (length ranked - 1) 2)"
      using ne unfolding ranked_def cands_def qualifying_def need_def psus_def
      by (simp add: pick_psu_for_gpu_def Let_def)
    have idx: "ranked ! min (length ranked - 1) 2 = (if 3 \<le> length ranked then ranked ! 2 else last ranked)"
    proof (cases "3 \<le> length ranked")
      case True
      then have "min (length ranked - 1) 2 = 2" by simp
      with True show ?thesis by simp
    next
      case False
      then have "min (length ranked - 1) 2 = length ranked - 1" by simp
      with False rne show ?thesis by (simp add: last_conv_nth)
    qed
    show ?thesis
      using q nq idx by (simp add: ranked_def by_price_sorted by_price_mset price_le_last_by_price)
  qed
  show ?thesis
    unfolding Let_def psus_def [symmetric] need_def [symmetric]
      qualifying_def [symmetric] cands_def [symmetric] ranked_def [symmetric]
    using none some by blast
qed

theorem psu_selection_witness:
  "parts_by_category ex_psus ''PSU'' \<noteq> []
   \<and> pick_psu_for_gpu (Some ex_gpu_x) ex_psus True = Some (ex_psu 1000 200)
   \<and> pick_psu_for_gpu (Some ex_gpu_x) ex_psus False = Some (ex_psu 850 120)"
proof -
  have ne: "parts_by_category ex_psus ''PSU'' \<noteq> []"
    by code_simp
  have r: "by_price (filter (\<lambda>p. 650 \<le> py_int (num_or (psu_wattage p) 0)) (parts_by_category ex_psus ''PSU''))
     = [ex_psu 650 70, ex_psu 750 90, ex_psu 850 120, ex_psu 1000 200]"
    by code_simp
  have qne: "filter (\<lambda>p. 650 \<le> py_int (num_or (psu_wattage p) 0)) (parts_by_category ex_psus ''PSU'') \<noteq> []"
    by code_simp
  have n: "\<not> falsy (Some ex_gpu_x)" "py_int (num_or (psu_wattage ex_gpu_x) 650) = 650"
    by code_simp+
  show ?thesis
    using psu_selection [of ex_psus "Some ex_gpu_x" True] ne r n qne
    by (simp add: Let_def)
qed

section \<open>The two RAM-type normalizers\<close>

lemma split_on_nonempty: "split_on c s \<noteq> []"
  by (induction s) (auto simp: Let_def)

lemma hd_split_on_prefix: "prefix (hd (split_on c s)) s"
  by (induction s) (auto simp: Let_def)

lemma split_on_piece_sublist: "p \<in> set (split_on c s) \<Longrightarrow> sublist p s"
proof (induction s arbitrary: p)
  case Nil
  then show ?case by simp
next
  case (Cons x xs)
  let ?r = "split_on c xs"
  have rne: "?r \<noteq> []" by (rule split_on_nonempty)
  show ?case
  proof (cases "x = c")
    case True
    with Cons.prems have "p = [] \<or> p \<in> set ?r" by (simp add: Let_def)
    then show ?thesis
    proof
      assume "p = []" then show ?thesis by simp
    next
      assume "p \<in> set ?r"
      then have "sublist p xs" by (rule Cons.IH)
      then show ?thesis by (simp add: sublist_Cons_right)
    qed
  next
    case False
    with Cons.prems have "p = x # hd ?r \<or> p \<in> set (tl ?r)" by (simp add: Let_def)
    then show ?thesis
    proof
      assume "p = x # hd ?r"
      then have "prefix p (x # xs)" using hd_split_on_prefix [of c xs] by simp
      then show ?thesis by (rule prefix_imp_sublist)
    next
      assume "p \<in> set (tl ?r)"
      then have "p \<in> set ?r" using rne by (meson list.set_sel(2))
      then have "sublist p xs" by (rule Cons.IH)
      then show ?thesis by (simp add: sublist_Cons_right)
    qed
  qed
qed

lemma prefix_hd_split_on: "prefix t s \<Longrightarrow> c \<notin> set t \<Longrightarrow> prefix t (hd (split_on c s))"
proof (induction s arbitrary: t)
  case Nil
  then show ?case by simp
next
  case (Cons x xs)
  show ?case
  proof (cases t)
    case Nil
    then show ?thesis by simp
  next
    case (Cons y ys)
    with Cons.prems have "y = x" "prefix ys xs" "x \<noteq> c" "c \<notin> set ys" by auto
    then show ?thesis using Cons.IH [of ys] Cons by (simp add: Let_def)
  qed
qed

lemma sublist_in_piece:
  "sublist t s \<Longrightarrow> c \<notin> set t \<Longrightarrow> \<exists>p \<in> set (split_on c s). sublist t p"
proof (induction s)
  case Nil
  then show ?case by simp
next
  case (Cons x xs)
  let ?r = "split_on c xs"
  have rne: "?r \<noteq> []" by (rule split_on_nonempty)
  from Cons.prems(1) have "prefix t (x # xs) \<or> sublist t xs" by (simp add: sublist_Cons_right)
  then show ?case
  proof
    assume "prefix t (x # xs)"
    then have "prefix t (hd (split_on c (x # xs)))" using Cons.prems(2) by (rule prefix_hd_split_on)
    moreover have "hd (split_on c (x # xs)) \<in> set (split_on c (x # xs))"
      using split_on_nonempty [of c "x # xs"] by (meson list.set_sel(1))
    ultimately show ?thesis by (meson prefix_imp_sublist)
  next
    assume "sublist t xs"
    then obtain p where p: "p \<in> set ?r" "sublist t p" using Cons.IH Cons.prems(2) by blast
    show ?thesis
    proof (cases "x = c")
      case True
      then show ?thesis using p by (auto simp: Let_def)
    next
      case False
      from p(1) rne have "p = hd ?r \<or> p \<in> set (tl ?r)" by (cases ?r) auto
      then show ?thesis
      proof
        assume "p = hd ?r"
        then have "sublist t (x # hd ?r)" using p(2) by (simp add: sublist_Cons_right)
        then show ?thesis using False by (auto simp: Let_def)
      next
        assume "p \<in> set (tl ?r)"
        then show ?thesis using False p(2) by (auto simp: Let_def)
      qed
    qed
  qed
qed

lemma dropWhile_keeps:
  "t \<noteq> [] \<Longrightarrow> \<not> P (hd t) \<Longrightarrow> \<exists>ps'. dropWhile P (ps @ t @ ss) = ps' @ t @ ss"
proof (induction ps)
  case Nil
  then show ?case by (cases t) auto
next
  case (Cons a ps)
  then show ?case by (cases "P a") (auto intro: exI [of _ "a # ps"])
qed

lemma strip_sublist: "sublist (strip x) x"
proof -
  have "suffix (dropWhile is_space x) x" by (rule suffix_dropWhile)
  moreover have "prefix (rev (dropWhile is_space (rev (dropWhile is_space x)))) (dropWhile is_space x)"
    using suffix_dropWhile [of is_space "rev (dropWhile is_space x)"]
    by (metis rev_rev_ident suffix_to_prefix)
  ultimately show ?thesis
    unfolding strip_def by (meson prefix_imp_sublist suffix_imp_sublist sublist_order.order_trans)
qed

lemma sublist_strip:
  assumes "sublist t x" "t \<noteq> []" "\<not> is_space (hd t)" "\<not> is_space (last t)"
  shows "sublist t (strip x)"
proof -
  from assms(1) obtain ps ss where x: "x = ps @ t @ ss" by (auto simp: sublist_def)
  obtain ps' where a: "dropWhile is_space x = ps' @ t @ ss"
    using dropWhile_keeps [of t is_space ps ss] assms(2,3) x by auto
  have "rev t \<noteq> []" "\<not> is_space (hd (rev t))" using assms(2,4) by (simp_all add: hd_rev)
  then obtain ss' where b: "dropWhile is_space (rev ss @ rev t @ rev ps') = ss' @ rev t @ rev ps'"
    using dropWhile_keeps [of "rev t" is_space "rev ss" "rev ps'"] by auto
  have "strip x = ps' @ t @ rev ss'"
    unfolding strip_def a using b by simp
  then show ?thesis by simp
qed

lemma sublist_same_length: "sublist t u \<Longrightarrow> length t = length u \<Longrightarrow> t = u"
  by (auto simp: sublist_def)

lemma ddr_facts:
  "t \<in> {''DDR4'', ''DDR5''} \<Longrightarrow> t \<noteq> [] \<and> \<not> is_space (hd t) \<and> \<not> is_space (last t) \<and> length t = 4
     \<and> CHR ''/'' \<notin> set t \<and> CHR '','' \<notin> set t"
  by (auto simp: is_space_def)

text \<open>
  C10, as the code has it. The two normalizers agree on every input that the checker's
  normalizer maps into the two types \<open>DDR4\<close> and \<open>DDR5\<close>.
\<close>

theorem ram_type_sets_agree:
  assumes sub: "compat_ram_type_set v \<subseteq> {''DDR4'', ''DDR5''}"
  shows "app_ram_type_set v = compat_ram_type_set v"
proof -
  define s0 where "s0 = upper (str_or v)"
  define s where "s = strip s0"
  have app: "app_ram_type_set v = {t \<in> {''DDR4'', ''DDR5''}. sublist t s0}"
    by (auto simp: app_ram_type_set_def s0_def Let_def)
  have compat: "compat_ram_type_set v =
      (if s = [] then {}
       else if CHR ''/'' \<in> set s then set (filter (\<lambda>x. x \<noteq> []) (map strip (split_on CHR ''/'' s)))
       else if CHR '','' \<in> set s then set (filter (\<lambda>x. x \<noteq> []) (map strip (split_on CHR '','' s)))
       else {s})"
    by (simp add: compat_ram_type_set_def s_def s0_def Let_def)
  have in_s: "sublist t s" if "t \<in> compat_ram_type_set v" for t
  proof -
    have piece: "sublist (strip p) s" if "p \<in> set (split_on c s)" for p c
      using split_on_piece_sublist [OF that] strip_sublist [of p]
      by (meson sublist_order.order_trans)
    show ?thesis using that piece unfolding compat by (auto split: if_splits)
  qed
  have s_s0: "sublist s s0" unfolding s_def by (rule strip_sublist)
  have left: "t \<in> app_ram_type_set v" if t: "t \<in> compat_ram_type_set v" for t
  proof -
    have "sublist t s0" using in_s [OF t] s_s0 by (meson sublist_order.order_trans)
    moreover have "t \<in> {''DDR4'', ''DDR5''}" using t sub by blast
    ultimately show ?thesis unfolding app by simp
  qed
  have right: "t \<in> compat_ram_type_set v" if t: "t \<in> app_ram_type_set v" for t
  proof -
    from t have td: "t \<in> {''DDR4'', ''DDR5''}" and ts0: "sublist t s0" unfolding app by auto
    note f = ddr_facts [OF td]
    have ts: "sublist t s" unfolding s_def using sublist_strip [OF ts0] f by blast
    then have sne: "s \<noteq> []" using f by auto
    have same: "u = t" if "u \<in> compat_ram_type_set v" "sublist t u" for u
    proof -
      from that(1) sub have "u \<in> {''DDR4'', ''DDR5''}" by blast
      then have "length u = 4" by auto
      then show ?thesis using sublist_same_length [OF that(2)] f by simp
    qed
    have piece: "t \<in> compat_ram_type_set v"
      if c: "c \<notin> set t" and cs: "compat_ram_type_set v = set (filter (\<lambda>x. x \<noteq> []) (map strip (split_on c s)))" for c
    proof -
      from sublist_in_piece [OF ts c] obtain p where p: "p \<in> set (split_on c s)" "sublist t p" by blast
      have "sublist t (strip p)" using sublist_strip [OF p(2)] f by blast
      moreover from this have "strip p \<noteq> []" using f by auto
      ultimately have "strip p \<in> compat_ram_type_set v" "sublist t (strip p)" using p(1) cs by auto
      then show ?thesis using same by blast
    qed
    show ?thesis
    proof (cases "CHR ''/'' \<in> set s")
      case True
      then show ?thesis using piece [of "CHR ''/''"] f sne compat by simp
    next
      case False
      show ?thesis
      proof (cases "CHR '','' \<in> set s")
        case True
        then show ?thesis using piece [of "CHR '',''"] f sne compat False by simp
      next
        case c: False
        have "compat_ram_type_set v = {s}" using False c sne compat by simp
        then show ?thesis using same [of s] ts by simp
      qed
    qed
  qed
  show ?thesis using left right by blast
qed

theorem ram_type_sets_agree_witness:
  "compat_ram_type_set (Some '' ddr4 / DDR5'') \<subseteq> {''DDR4'', ''DDR5''}
   \<and> app_ram_type_set (Some '' ddr4 / DDR5'') = {''DDR4'', ''DDR5''}
   \<and> compat_ram_type_set (Some '' ddr4 / DDR5'') = {''DDR4'', ''DDR5''}"
proof -
  have c: "compat_ram_type_set (Some '' ddr4 / DDR5'') = {''DDR4'', ''DDR5''}"
    by code_simp
  show ?thesis using ram_type_sets_agree [of "Some '' ddr4 / DDR5''"] c by simp
qed

text \<open>
  C10 as stated fails: on \<open>DDR3\<close> the checker's normalizer returns the one-element set of the
  input and the allocator's returns the empty set.
\<close>

theorem ram_type_sets_differ_counterexample:
  "compat_ram_type_set (Some ''DDR3'') \<noteq> app_ram_type_set (Some ''DDR3'')"
  by code_simp

section \<open>Budget and selection caps\<close>

lemma weights_pos: "0 < weights c"
  by (cases c) simp_all

lemma sum_list_pos:
  "xs \<noteq> [] \<Longrightarrow> (\<And>x. x \<in> set xs \<Longrightarrow> 0 < f x) \<Longrightarrow> 0 < sum_list (map f xs :: rat list)"
proof (induction xs)
  case Nil
  then show ?case by simp
next
  case (Cons a xs)
  then show ?case by (cases "xs = []") (auto intro: add_pos_pos)
qed

lemma weight_sum_pos: "0 < weight_sum owned"
  by (simp add: weight_sum_def sum_list_pos weights_pos)

lemma cap_factor_nonneg: "0 \<le> cap_factor lvl c"
  by (cases c) (simp_all add: cap_factor_def)

lemma cap_of_mono:
  assumes "b1 \<le> b2"
  shows "cap_of b1 owned lvl c \<le> cap_of b2 owned lvl c"
proof -
  define k where "k = weights c / weight_sum owned * cap_factor lvl c"
  have k: "0 \<le> k"
    unfolding k_def using weight_sum_pos [of owned] weights_pos [of c] cap_factor_nonneg [of lvl c]
    by simp
  have eq: "cap_of b owned lvl c = min (of_int b) (of_int b * k)" for b
    by (simp add: cap_of_def alloc_def k_def)
  have le: "(of_int b1 :: rat) \<le> of_int b2" using assms by simp
  then have "(of_int b1 :: rat) * k \<le> of_int b2 * k" using k by (rule mult_right_mono)
  with le show ?thesis unfolding eq by (auto simp: min_def)
qed

lemma pick_loop_mono:
  assumes c: "c1 \<le> c2"
  shows "s1 \<le> s2 \<Longrightarrow> (best2 = None \<longrightarrow> best1 = None \<and> s1 = s2)
     \<Longrightarrow> (\<forall>q. best1 = Some q \<longrightarrow> f q = s1) \<Longrightarrow> (\<forall>q. best2 = Some q \<longrightarrow> f q = s2)
     \<Longrightarrow> pick_loop c1 f items (best1, s1) = Some p1
     \<Longrightarrow> \<exists>p2. pick_loop c2 f items (best2, s2) = Some p2 \<and> f p1 \<le> f p2"
proof (induction items arbitrary: best1 s1 best2 s2)
  case Nil
  from Nil.prems(5) have b1: "best1 = Some p1" by simp
  with Nil.prems(2) obtain p2 where b2: "best2 = Some p2" by (cases best2) auto
  from b1 Nil.prems(3) have "f p1 = s1" by blast
  moreover from b2 Nil.prems(4) have "f p2 = s2" by blast
  ultimately have "f p1 \<le> f p2" using Nil.prems(1) by simp
  with b2 show ?case by simp
next
  case (Cons it its)
  define st1 where "st1 =
    (if price it \<le> 0 \<or> c1 < price it then (best1, s1)
     else if s1 < f it then (Some it, f it) else (best1, s1))"
  define st2 where "st2 =
    (if price it \<le> 0 \<or> c2 < price it then (best2, s2)
     else if s2 < f it then (Some it, f it) else (best2, s2))"
  have r1: "pick_loop c1 f (it # its) (best1, s1) = pick_loop c1 f its (fst st1, snd st1)"
    by (simp add: st1_def)
  have r2: "pick_loop c2 f (it # its) (best2, s2) = pick_loop c2 f its (fst st2, snd st2)"
    by (simp add: st2_def)
  have i1: "snd st1 \<le> snd st2"
    using Cons.prems(1) c by (auto simp: st1_def st2_def)
  have i2: "fst st2 = None \<longrightarrow> fst st1 = None \<and> snd st1 = snd st2"
    using Cons.prems(1,2) c by (auto simp: st1_def st2_def)
  have i3: "\<forall>q. fst st1 = Some q \<longrightarrow> f q = snd st1"
    using Cons.prems(3) by (auto simp: st1_def)
  have i4: "\<forall>q. fst st2 = Some q \<longrightarrow> f q = snd st2"
    using Cons.prems(4) by (auto simp: st2_def)
  have i5: "pick_loop c1 f its (fst st1, snd st1) = Some p1"
    using Cons.prems(5) unfolding r1 .
  have "\<exists>p2. pick_loop c2 f its (fst st2, snd st2) = Some p2 \<and> f p1 \<le> f p2"
    using i1 i2 i3 i4 i5 by (rule Cons.IH)
  then show ?case unfolding r2 .
qed

lemma pick_best_within_mono:
  "c1 \<le> c2 \<Longrightarrow> pick_best_within items c1 f = Some p1
     \<Longrightarrow> \<exists>p2. pick_best_within items c2 f = Some p2 \<and> f p1 \<le> f p2"
  unfolding pick_best_within_def
  by (rule pick_loop_mono [where ?s1.0 = "- (10 ^ 18)" and ?best1.0 = None]) simp_all

text \<open>
  C4, as the code has it. For budgets \<open>b1 \<le> b2\<close> with the owned set and the level fixed, the
  price cap of each capped category (CPU, RAM, GPU, Storage) at \<open>b2\<close> is at least the cap at
  \<open>b1\<close>, and the capped selection
  step, run on one candidate list with one score, picks at the larger cap a part whose score
  is at least the score of its pick at the smaller cap, whenever it picks one there.
\<close>

theorem caps_monotone_in_budget:
  assumes "b1 \<le> b2" and "c = CPU \<or> c = RAM \<or> c = GPU \<or> c = Storage"
  shows "cap_of b1 owned lvl c \<le> cap_of b2 owned lvl c
    \<and> (\<forall>items f p1. pick_best_within items (cap_of b1 owned lvl c) f = Some p1
          \<longrightarrow> (\<exists>p2. pick_best_within items (cap_of b2 owned lvl c) f = Some p2 \<and> f p1 \<le> f p2))"
  using cap_of_mono [OF assms(1)] pick_best_within_mono by blast

text \<open>
  C4 as stated fails. On the example catalog with nothing owned, budget 899 selects the
  8 GB GPU; at budget 900 the preferred RAM type becomes DDR5, the dearer motherboard puts
  the total above the budget, and the downgrade loop replaces the GPU by the cheapest one,
  whose score is lower.
\<close>

theorem budget_monotonicity_counterexample:
  "(899::int) \<le> 900 \<and> no_owned GPU = None
   \<and> fst (build_always ex_catalog ex_reqs False False 899 no_owned Both) GPU = Some ex_gpu_x
   \<and> fst (build_always ex_catalog ex_reqs False False 900 no_owned Both) GPU = Some ex_gpu_y
   \<and> gpu_score ex_gpu_y < gpu_score ex_gpu_x"
  by code_simp

theorem caps_monotone_in_budget_witness:
  "(899::int) \<le> 900
   \<and> cap_of 899 no_owned Both GPU \<le> cap_of 900 no_owned Both GPU
   \<and> pick_best_within [ex_gpu_x, ex_gpu_y] (cap_of 899 no_owned Both GPU) gpu_score = Some ex_gpu_x
   \<and> pick_best_within [ex_gpu_x, ex_gpu_y] (cap_of 900 no_owned Both GPU) gpu_score = Some ex_gpu_x"
proof -
  have le: "(899::int) \<le> 900" by simp
  have g: "GPU = CPU \<or> GPU = RAM \<or> GPU = GPU \<or> GPU = Storage" by simp
  have a: "pick_best_within [ex_gpu_x, ex_gpu_y] (cap_of 899 no_owned Both GPU) gpu_score = Some ex_gpu_x"
    by code_simp
  have b: "pick_best_within [ex_gpu_x, ex_gpu_y] (cap_of 900 no_owned Both GPU) gpu_score = Some ex_gpu_x"
    by code_simp
  show ?thesis using caps_monotone_in_budget [OF le g, of no_owned Both] a b by simp
qed

section \<open>The selection steps change only their own, non-owned entry\<close>

lemma pick_best_within_Nil: "pick_best_within [] cap f = None"
  by (simp add: pick_best_within_def)

lemma cheapest_Nil: "cheapest [] = None"
  by (simp add: cheapest_def by_price_def)

lemma priciest_Nil: "priciest [] = None"
  by (simp add: priciest_def)

lemma dict_or_None: "dict_or None None = None"
  by (simp add: dict_or_def)

lemma falsy_None: "falsy None"
  by (simp add: falsy_def)

lemma parts_by_category_filter:
  "parts_by_category PARTS n = [] \<Longrightarrow> parts_by_category (filter P PARTS) n = []"
  by (auto simp: parts_by_category_def filter_empty_conv)

lemma filtered_no_parts:
  assumes "parts_by_category PARTS n = []"
  shows "parts_by_category
           (if recommend_parts_for_requirements rq PARTS budget = [] then PARTS
            else recommend_parts_for_requirements rq PARTS budget) n = []"
  using assms parts_by_category_filter [OF assms]
  by (simp add: recommend_parts_for_requirements_def)

lemma select_cpu_apply:
  "select_cpu filtered budget owned lvl b c =
     (if c = CPU \<and> \<not> is_owned owned CPU
      then dict_or (pick_best_within (parts_by_category filtered ''CPU'') (cap_of budget owned lvl CPU) cpu_score)
                   (cheapest (parts_by_category filtered ''CPU''))
      else b c)"
  by (simp add: select_cpu_def Let_def)

lemma select_cpu_keeps: "is_owned owned c \<Longrightarrow> select_cpu filtered budget owned lvl b c = b c"
  by (auto simp: select_cpu_apply)

lemma select_cpu_other: "c \<noteq> CPU \<Longrightarrow> select_cpu filtered budget owned lvl b c = b c"
  by (simp add: select_cpu_apply)

lemma select_cpu_none:
  "\<not> is_owned owned CPU \<Longrightarrow> parts_by_category filtered ''CPU'' = []
     \<Longrightarrow> select_cpu filtered budget owned lvl b CPU = None"
  by (simp add: select_cpu_apply pick_best_within_Nil cheapest_Nil dict_or_None)

lemma select_mobo_keeps: "is_owned owned c \<Longrightarrow> select_mobo filtered budget owned b c = b c"
  by (auto simp: select_mobo_def Let_def)

lemma select_mobo_other: "c \<noteq> Motherboard \<Longrightarrow> select_mobo filtered budget owned b c = b c"
  by (simp add: select_mobo_def Let_def)

lemma pick_mobo_none:
  "parts_by_category pool ''Motherboard'' = [] \<Longrightarrow> pick_mobo_for_cpu cpu pool pref = None"
  by (simp add: pick_mobo_for_cpu_def Let_def priciest_Nil)

lemma select_mobo_none:
  "\<not> is_owned owned Motherboard \<Longrightarrow> parts_by_category filtered ''Motherboard'' = []
     \<Longrightarrow> select_mobo filtered budget owned b Motherboard = None"
  by (simp add: select_mobo_def Let_def pick_mobo_none dict_or_None falsy_None cheapest_Nil)

lemma select_ram_keeps:
  "is_owned owned c \<Longrightarrow> select_ram rq filtered budget owned lvl rgb b c = b c"
  by (auto simp: select_ram_def Let_def)

lemma select_ram_other:
  "c \<noteq> RAM \<Longrightarrow> select_ram rq filtered budget owned lvl rgb b c = b c"
  by (simp add: select_ram_def Let_def)

lemma pick_ram_none:
  "parts_by_category pool ''RAM'' = [] \<Longrightarrow> pick_ram_for_mobo mobo pool need rgb cap = None"
  by (simp add: pick_ram_for_mobo_def Let_def by_price_def pick_best_within_Nil dict_or_None)

lemma select_ram_none:
  "\<not> is_owned owned RAM \<Longrightarrow> parts_by_category filtered ''RAM'' = []
     \<Longrightarrow> select_ram rq filtered budget owned lvl rgb b RAM = None"
  by (simp add: select_ram_def Let_def pick_ram_none falsy_None cheapest_Nil)

lemma select_gpu_keeps:
  "is_owned owned c \<Longrightarrow> select_gpu PARTS filtered budget owned lvl b c = b c"
  by (auto simp: select_gpu_def Let_def)

lemma select_gpu_other:
  "c \<noteq> GPU \<Longrightarrow> select_gpu PARTS filtered budget owned lvl b c = b c"
  by (simp add: select_gpu_def Let_def)

lemma select_gpu_none:
  "\<not> is_owned owned GPU \<Longrightarrow> parts_by_category filtered ''GPU'' = []
     \<Longrightarrow> parts_by_category PARTS ''GPU'' = []
     \<Longrightarrow> select_gpu PARTS filtered budget owned lvl b GPU = None"
  by (simp add: select_gpu_def Let_def pick_best_within_Nil cheapest_Nil dict_or_None falsy_None)

lemma select_storage_keeps:
  "is_owned owned c \<Longrightarrow> select_storage rq filtered budget owned lvl b c = b c"
  by (auto simp: select_storage_def Let_def)

lemma select_storage_other:
  "c \<noteq> Storage \<Longrightarrow> select_storage rq filtered budget owned lvl b c = b c"
  by (simp add: select_storage_def Let_def)

lemma select_storage_none:
  "\<not> is_owned owned Storage \<Longrightarrow> parts_by_category filtered ''Storage'' = []
     \<Longrightarrow> select_storage rq filtered budget owned lvl b Storage = None"
  by (simp add: select_storage_def Let_def pick_best_within_Nil cheapest_Nil dict_or_None)

lemma select_case_keeps: "is_owned owned c \<Longrightarrow> select_case filtered owned b c = b c"
  by (auto simp: select_case_def)

lemma select_case_other: "c \<noteq> Case \<Longrightarrow> select_case filtered owned b c = b c"
  by (simp add: select_case_def)

lemma select_case_none:
  "\<not> is_owned owned Case \<Longrightarrow> parts_by_category filtered ''Case'' = []
     \<Longrightarrow> select_case filtered owned b Case = None"
  by (simp add: select_case_def pick_case_for_gpu_def)

lemma select_psu_keeps: "is_owned owned c \<Longrightarrow> select_psu filtered owned quiet b c = b c"
  by (auto simp: select_psu_def)

lemma select_psu_other: "c \<noteq> PSU \<Longrightarrow> select_psu filtered owned quiet b c = b c"
  by (simp add: select_psu_def)

lemma select_psu_none:
  "\<not> is_owned owned PSU \<Longrightarrow> parts_by_category filtered ''PSU'' = []
     \<Longrightarrow> select_psu filtered owned quiet b PSU = None"
  by (simp add: select_psu_def pick_psu_for_gpu_def)

lemmas select_keeps = select_cpu_keeps select_mobo_keeps select_ram_keeps select_gpu_keeps
  select_storage_keeps select_case_keeps select_psu_keeps

lemmas select_other = select_cpu_other select_mobo_other select_ram_other select_gpu_other
  select_storage_other select_case_other select_psu_other

lemma fill_one_apply:
  "fill_one PARTS b cat c =
     (if c = cat \<and> b c = None
      then Some (or_empty (cheapest (parts_by_category PARTS (slot_name cat))))
      else b c)"
  by (auto simp: fill_one_def)

lemma fill_missing_apply:
  "fill_missing PARTS b c =
     (case b c of
        None \<Rightarrow> Some (or_empty (cheapest (parts_by_category PARTS (slot_name c))))
      | Some p \<Rightarrow> Some p)"
  by (cases c) (simp_all add: fill_missing_def categories_def fill_one_apply split: option.splits)

section \<open>The downgrade loop\<close>

lemma downgrade_step:
  obtains
    (stop) "t \<le> of_int budget"
      "downgrade PARTS budget owned (cat # cats) (b, t) = (b, t)"
  | (skip) "\<not> t \<le> of_int budget"
      "is_owned owned cat \<or> cheaper_than PARTS cat (price (or_empty (b cat))) = []"
      "downgrade PARTS budget owned (cat # cats) (b, t) = downgrade PARTS budget owned cats (b, t)"
  | (subst) p ps b2 where "\<not> t \<le> of_int budget" "\<not> is_owned owned cat"
      "cheaper_than PARTS cat (price (or_empty (b cat))) = p # ps"
      "b2 cat = Some p" "\<And>c. c \<noteq> cat \<Longrightarrow> b2 c = b c"
      "downgrade PARTS budget owned (cat # cats) (b, t)
         = downgrade PARTS budget owned cats (b2, total_missing owned b2)"
proof (cases "t \<le> of_int budget")
  case True
  then show ?thesis using stop by simp
next
  case over: False
  show ?thesis
  proof (cases "is_owned owned cat \<or> cheaper_than PARTS cat (price (or_empty (b cat))) = []")
    case True
    then show ?thesis using skip over by auto
  next
    case False
    then obtain p ps where ch: "cheaper_than PARTS cat (price (or_empty (b cat))) = p # ps"
      by (cases "cheaper_than PARTS cat (price (or_empty (b cat)))") auto
    define b2 where "b2 = b(cat := Some p)"
    have "downgrade PARTS budget owned (cat # cats) (b, t)
         = downgrade PARTS budget owned cats (b2, total_missing owned b2)"
      using False over ch by (simp add: Let_def b2_def)
    moreover have "b2 cat = Some p" "\<And>c. c \<noteq> cat \<Longrightarrow> b2 c = b c"
      by (simp_all add: b2_def)
    ultimately show ?thesis using subst [of p ps b2] over False ch by blast
  qed
qed

lemma downgrade_frame:
  "c \<notin> set cats \<Longrightarrow> fst (downgrade PARTS budget owned cats (b, t)) c = b c"
proof (induction cats arbitrary: b t)
  case Nil
  then show ?case by simp
next
  case (Cons cat cats)
  then have c: "c \<noteq> cat" "c \<notin> set cats" by auto
  show ?case
  proof (cases rule: downgrade_step [of t budget PARTS owned cat cats b])
    case stop
    then show ?thesis by simp
  next
    case skip
    then show ?thesis using Cons.IH [OF c(2)] by simp
  next
    case (subst p ps b2)
    then show ?thesis using Cons.IH [OF c(2), where b = b2] c(1) by simp
  qed
qed

lemma downgrade_keeps_owned:
  "is_owned owned c \<Longrightarrow> fst (downgrade PARTS budget owned cats (b, t)) c = b c"
proof (induction cats arbitrary: b t)
  case Nil
  then show ?case by simp
next
  case (Cons cat cats)
  show ?case
  proof (cases rule: downgrade_step [of t budget PARTS owned cat cats b])
    case stop
    then show ?thesis by simp
  next
    case skip
    then show ?thesis using Cons.IH [OF Cons.prems] by simp
  next
    case (subst p ps b2)
    then have "c \<noteq> cat" using Cons.prems by auto
    then show ?thesis using Cons.IH [OF Cons.prems, where b = b2] subst by simp
  qed
qed

lemma downgrade_some:
  "b c \<noteq> None \<Longrightarrow> fst (downgrade PARTS budget owned cats (b, t)) c \<noteq> None"
proof (induction cats arbitrary: b t)
  case Nil
  then show ?case by simp
next
  case (Cons cat cats)
  show ?case
  proof (cases rule: downgrade_step [of t budget PARTS owned cat cats b])
    case stop
    then show ?thesis using Cons.prems by simp
  next
    case skip
    then show ?thesis using Cons.IH [of b t] Cons.prems by simp
  next
    case (subst p ps b2)
    have "b2 c \<noteq> None" using subst(4) subst(5) [of c] Cons.prems by (cases "c = cat") auto
    then show ?thesis using Cons.IH [of b2 "total_missing owned b2"] subst(6) by simp
  qed
qed

lemma downgrade_total:
  "t = total_missing owned b \<Longrightarrow>
   snd (downgrade PARTS budget owned cats (b, t))
     = total_missing owned (fst (downgrade PARTS budget owned cats (b, t)))"
proof (induction cats arbitrary: b t)
  case Nil
  then show ?case by simp
next
  case (Cons cat cats)
  show ?case
  proof (cases rule: downgrade_step [of t budget PARTS owned cat cats b])
    case stop
    then show ?thesis using Cons.prems by simp
  next
    case skip
    then show ?thesis using Cons.IH [OF Cons.prems] by simp
  next
    case (subst p ps b2)
    then show ?thesis using Cons.IH [where b = b2 and t = "total_missing owned b2"] by simp
  qed
qed

lemma cheaper_than_no_pool:
  "parts_by_category PARTS (slot_name c) = [] \<Longrightarrow> cheaper_than PARTS c cur = []"
  by (simp add: cheaper_than_def by_price_def)

lemma cheaper_than_Nil_iff:
  "cheaper_than PARTS c cur = [] \<longleftrightarrow>
     (\<forall>q \<in> set (parts_by_category PARTS (slot_name c)). \<not> (0 < price q \<and> price q < cur))"
  by (simp add: cheaper_than_def by_price_Nil_iff filter_empty_conv)

lemma cheaper_than_hd:
  assumes "cheaper_than PARTS c cur = p # ps"
  shows "p \<in> set (parts_by_category PARTS (slot_name c)) \<and> 0 < price p \<and> price p < cur
     \<and> (\<forall>q \<in> set (parts_by_category PARTS (slot_name c)).
           0 < price q \<and> price q < cur \<longrightarrow> price p \<le> price q)"
proof -
  let ?pool = "parts_by_category PARTS (slot_name c)"
  let ?xs = "filter (\<lambda>p. 0 < price p \<and> price p < cur) ?pool"
  have eq: "by_price ?xs = p # ps" using assms by (simp add: cheaper_than_def)
  have "set (p # ps) = set ?xs" using by_price_set [of ?xs] eq by simp
  then have mem: "p \<in> set ?xs" and all: "\<And>q. q \<in> set ?xs \<Longrightarrow> q \<in> set (p # ps)" by auto
  have "sorted (map price (p # ps))" using by_price_sorted [of ?xs] eq by simp
  then have le: "\<And>q. q \<in> set (p # ps) \<Longrightarrow> price p \<le> price q" by auto
  show ?thesis using mem all le by auto
qed

lemma cheaper_than_after:
  assumes "cheaper_than PARTS c cur = p # ps"
  shows "cheaper_than PARTS c (price p) = []"
proof -
  note h = cheaper_than_hd [OF assms]
  have "\<not> (0 < price q \<and> price q < price p)"
    if "q \<in> set (parts_by_category PARTS (slot_name c))" for q
  proof
    assume a: "0 < price q \<and> price q < price p"
    then have "price q < cur" using h by simp
    then have "price p \<le> price q" using h a that by blast
    then show False using a by simp
  qed
  then show ?thesis unfolding cheaper_than_Nil_iff by blast
qed

lemma downgrade_no_pool:
  "parts_by_category PARTS (slot_name c) = [] \<Longrightarrow>
   fst (downgrade PARTS budget owned cats (b, t)) c = b c"
proof (induction cats arbitrary: b t)
  case Nil
  then show ?case by simp
next
  case (Cons cat cats)
  show ?case
  proof (cases rule: downgrade_step [of t budget PARTS owned cat cats b])
    case stop
    then show ?thesis by simp
  next
    case skip
    then show ?thesis using Cons.IH [OF Cons.prems] by simp
  next
    case (subst p ps b2)
    then have "c \<noteq> cat" using cheaper_than_no_pool [OF Cons.prems] by auto
    then show ?thesis using Cons.IH [OF Cons.prems, where b = b2] subst by simp
  qed
qed

lemma downgrade_subst:
  "distinct cats \<Longrightarrow>
   fst (downgrade PARTS budget owned cats (b, t)) c = b c
   \<or> (\<not> is_owned owned c
       \<and> (\<exists>p ps. cheaper_than PARTS c (price (or_empty (b c))) = p # ps
              \<and> fst (downgrade PARTS budget owned cats (b, t)) c = Some p))"
proof (induction cats arbitrary: b t)
  case Nil
  then show ?case by simp
next
  case (Cons cat cats)
  from Cons.prems have d: "cat \<notin> set cats" "distinct cats" by auto
  show ?case
  proof (cases rule: downgrade_step [of t budget PARTS owned cat cats b])
    case stop
    then show ?thesis by simp
  next
    case skip
    then show ?thesis using Cons.IH [OF d(2), of b t] by simp
  next
    case (subst p ps b2)
    show ?thesis
    proof (cases "c = cat")
      case True
      have "fst (downgrade PARTS budget owned cats (b2, total_missing owned b2)) cat = b2 cat"
        using d(1) by (rule downgrade_frame)
      then show ?thesis using True subst by simp
    next
      case False
      then have "b2 c = b c" by (rule subst(5))
      then show ?thesis
        using Cons.IH [OF d(2), where b = b2 and t = "total_missing owned b2"] subst(6) by simp
    qed
  qed
qed

lemma downgrade_stop:
  "distinct cats \<Longrightarrow>
   snd (downgrade PARTS budget owned cats (b, t)) \<le> of_int budget
   \<or> (\<forall>c \<in> set cats. \<not> is_owned owned c \<longrightarrow>
        cheaper_than PARTS c (price (or_empty (fst (downgrade PARTS budget owned cats (b, t)) c))) = [])"
proof (induction cats arbitrary: b t)
  case Nil
  then show ?case by simp
next
  case (Cons cat cats)
  from Cons.prems have d: "cat \<notin> set cats" "distinct cats" by auto
  show ?case
  proof (cases rule: downgrade_step [of t budget PARTS owned cat cats b])
    case stop
    then show ?thesis by simp
  next
    case skip
    have "fst (downgrade PARTS budget owned cats (b, t)) cat = b cat"
      using d(1) by (rule downgrade_frame)
    then have "\<not> is_owned owned cat \<longrightarrow>
        cheaper_than PARTS cat (price (or_empty (fst (downgrade PARTS budget owned cats (b, t)) cat))) = []"
      using skip(2) by auto
    then show ?thesis using Cons.IH [OF d(2), of b t] unfolding skip(3) by auto
  next
    case (subst p ps b2)
    have "fst (downgrade PARTS budget owned cats (b2, total_missing owned b2)) cat = b2 cat"
      using d(1) by (rule downgrade_frame)
    then have "cheaper_than PARTS cat
        (price (or_empty (fst (downgrade PARTS budget owned cats (b2, total_missing owned b2)) cat))) = []"
      using cheaper_than_after [OF subst(3)] subst(4) by (simp add: or_empty_def)
    then show ?thesis
      using Cons.IH [OF d(2), where b = b2 and t = "total_missing owned b2"] unfolding subst(6) by auto
  qed
qed

lemma downgrade_order:
  "distinct cats \<Longrightarrow> cats = pre @ c # post
   \<Longrightarrow> fst (downgrade PARTS budget owned cats (b, t)) c \<noteq> b c
   \<Longrightarrow> d \<in> set pre \<Longrightarrow> \<not> is_owned owned d
   \<Longrightarrow> cheaper_than PARTS d (price (or_empty (fst (downgrade PARTS budget owned cats (b, t)) d))) = []"
proof (induction cats arbitrary: b t pre)
  case Nil
  then show ?case by simp
next
  case (Cons cat cats)
  from Cons.prems(4) obtain pre' where pre: "pre = cat # pre'" "cats = pre' @ c # post"
    using Cons.prems(2) by (cases pre) auto
  from Cons.prems(1) have dd: "cat \<notin> set cats" "distinct cats" by auto
  have cne: "c \<noteq> cat" using dd(1) pre(2) by auto
  show ?case
  proof (cases rule: downgrade_step [of t budget PARTS owned cat cats b])
    case stop
    then show ?thesis using Cons.prems(3) by simp
  next
    case skip
    have fr: "fst (downgrade PARTS budget owned cats (b, t)) cat = b cat"
      using dd(1) by (rule downgrade_frame)
    show ?thesis
    proof (cases "d = cat")
      case True
      then show ?thesis using skip(2) Cons.prems(5) fr unfolding skip(3) by simp
    next
      case False
      then have "d \<in> set pre'" using Cons.prems(4) pre(1) by simp
      then show ?thesis
        using Cons.IH [OF dd(2) pre(2), of b t] Cons.prems(3,5) unfolding skip(3) by simp
    qed
  next
    case (subst p ps b2)
    have fr: "fst (downgrade PARTS budget owned cats (b2, total_missing owned b2)) cat = b2 cat"
      using dd(1) by (rule downgrade_frame)
    show ?thesis
    proof (cases "d = cat")
      case True
      then show ?thesis
        using cheaper_than_after [OF subst(3)] fr subst(4) unfolding subst(6)
        by (simp add: or_empty_def)
    next
      case ne: False
      then have "d \<in> set pre'" using Cons.prems(4) pre(1) by simp
      moreover have "fst (downgrade PARTS budget owned cats (b2, total_missing owned b2)) c \<noteq> b2 c"
        using Cons.prems(3) subst(5) [OF cne] unfolding subst(6) by simp
      ultimately show ?thesis
        using Cons.IH [OF dd(2) pre(2), where b = b2 and t = "total_missing owned b2"] Cons.prems(5)
        unfolding subst(6) by simp
    qed
  qed
qed

lemma downgrade_replaced_over:
  "distinct cats \<Longrightarrow> cats = pre @ c # post \<Longrightarrow> t = total_missing owned b
   \<Longrightarrow> fst (downgrade PARTS budget owned cats (b, t)) c \<noteq> b c
   \<Longrightarrow> of_int budget
        < total_missing owned
            (\<lambda>d. if d \<in> set pre then fst (downgrade PARTS budget owned cats (b, t)) d else b d)"
proof (induction cats arbitrary: b t pre)
  case Nil
  then show ?case by simp
next
  case (Cons cat cats)
  from Cons.prems(1) have dd: "cat \<notin> set cats" "distinct cats" by auto
  show ?case
  proof (cases pre)
    case Nil
    have over: "\<not> t \<le> of_int budget"
    proof
      assume "t \<le> of_int budget"
      then have "downgrade PARTS budget owned (cat # cats) (b, t) = (b, t)" by simp
      then show False using Cons.prems(4) by simp
    qed
    have "(\<lambda>d. if d \<in> set pre then fst (downgrade PARTS budget owned (cat # cats) (b, t)) d else b d) = b"
      using Nil by simp
    then show ?thesis using over Cons.prems(3) by simp
  next
    case (Cons x pre')
    then have pre: "pre = cat # pre'" "cats = pre' @ c # post" using Cons.prems(2) by auto
    have cne: "c \<noteq> cat" using dd(1) pre(2) by auto
    show ?thesis
    proof (cases rule: downgrade_step [of t budget PARTS owned cat cats b])
      case stop
      then show ?thesis using Cons.prems(4) by simp
    next
      case skip
      let ?R = "downgrade PARTS budget owned cats (b, t)"
      have fr: "fst ?R cat = b cat" using dd(1) by (rule downgrade_frame)
      have ch: "fst ?R c \<noteq> b c" using Cons.prems(4) unfolding skip(3) .
      have ih: "of_int budget < total_missing owned (\<lambda>d. if d \<in> set pre' then fst ?R d else b d)"
        using dd(2) pre(2) Cons.prems(3) ch by (rule Cons.IH)
      have "(\<lambda>d. if d \<in> set pre then fst ?R d else b d)
          = (\<lambda>d. if d \<in> set pre' then fst ?R d else b d)"
        using fr pre(1) by (auto intro!: ext)
      then show ?thesis using ih unfolding skip(3) by simp
    next
      case (subst p ps b2)
      let ?R = "downgrade PARTS budget owned cats (b2, total_missing owned b2)"
      have fr: "fst ?R cat = b2 cat" using dd(1) by (rule downgrade_frame)
      have ch: "fst ?R c \<noteq> b2 c" using Cons.prems(4) subst(5) [OF cne] unfolding subst(6) by simp
      have ih: "of_int budget < total_missing owned (\<lambda>d. if d \<in> set pre' then fst ?R d else b2 d)"
        using dd(2) pre(2) refl ch by (rule Cons.IH)
      have "(\<lambda>d. if d \<in> set pre then fst ?R d else b d)
          = (\<lambda>d. if d \<in> set pre' then fst ?R d else b2 d)"
        using fr pre(1) subst(5) by (auto intro!: ext)
      then show ?thesis using ih unfolding subst(6) by simp
    qed
  qed
qed

section \<open>The returned build\<close>

lemma selected_owned:
  "is_owned owned c \<Longrightarrow> selected PARTS rq0 rgb quiet budget owned lvl c = owned c"
  by (auto simp: selected_def Let_def fill_missing_apply select_keeps is_owned_def
      split: option.splits)

lemma selected_some: "selected PARTS rq0 rgb quiet budget owned lvl c \<noteq> None"
  by (simp add: selected_def Let_def fill_missing_apply split: option.splits)

lemma or_empty_cheapest_Nil: "or_empty (cheapest []) = empty_part"
  by (simp add: cheapest_Nil or_empty_def)

lemma selected_placeholder:
  assumes no: "\<not> is_owned owned c" and pool: "parts_by_category PARTS (slot_name c) = []"
  shows "selected PARTS rq0 rgb quiet budget owned lvl c = Some empty_part"
proof -
  define rq where "rq = tier_tuning lvl rq0"
  define filtered where "filtered =
    (if recommend_parts_for_requirements rq PARTS budget = [] then PARTS
     else recommend_parts_for_requirements rq PARTS budget)"
  define b7 where "b7 =
    select_psu filtered owned quiet (select_case filtered owned
      (select_storage rq filtered budget owned lvl (select_gpu PARTS filtered budget owned lvl
        (select_ram rq filtered budget owned lvl rgb (select_mobo filtered budget owned
          (select_cpu filtered budget owned lvl owned))))))"
  have sel: "selected PARTS rq0 rgb quiet budget owned lvl = fill_missing PARTS b7"
    by (simp add: selected_def Let_def b7_def filtered_def rq_def)
  have f: "parts_by_category filtered (slot_name c) = []"
    unfolding filtered_def using pool by (rule filtered_no_parts)
  have o: "owned c = None" using no by (simp add: is_owned_def)
  have "b7 c = None"
  proof (cases c)
    case GPU
    then show ?thesis using no pool f
      by (simp add: b7_def select_other select_gpu_none)
  next
    case CPU
    then show ?thesis using no f
      by (simp add: b7_def select_other select_cpu_none)
  next
    case Motherboard
    then show ?thesis using no f
      by (simp add: b7_def select_other select_mobo_none)
  next
    case RAM
    then show ?thesis using no f
      by (simp add: b7_def select_other select_ram_none)
  next
    case Storage
    then show ?thesis using no f
      by (simp add: b7_def select_other select_storage_none)
  next
    case PSU
    then show ?thesis using no f
      by (simp add: b7_def select_other select_psu_none)
  next
    case Case
    then show ?thesis using no f
      by (simp add: b7_def select_other select_case_none)
  qed
  then show ?thesis
    unfolding sel by (simp add: fill_missing_apply pool or_empty_cheapest_Nil)
qed

lemma build_always_cases:
  "build_always PARTS rq0 rgb quiet budget owned lvl =
     (if total_missing owned (selected PARTS rq0 rgb quiet budget owned lvl) > of_int budget
      then downgrade PARTS budget owned priority
             (selected PARTS rq0 rgb quiet budget owned lvl,
              total_missing owned (selected PARTS rq0 rgb quiet budget owned lvl))
      else (selected PARTS rq0 rgb quiet budget owned lvl,
            total_missing owned (selected PARTS rq0 rgb quiet budget owned lvl)))"
  by (simp add: build_always_def Let_def)

lemma build_always_owned:
  "is_owned owned c \<Longrightarrow> fst (build_always PARTS rq0 rgb quiet budget owned lvl) c = owned c"
  by (simp add: build_always_cases downgrade_keeps_owned selected_owned)

lemma build_always_total:
  "snd (build_always PARTS rq0 rgb quiet budget owned lvl)
     = total_missing owned (fst (build_always PARTS rq0 rgb quiet budget owned lvl))"
  by (simp add: build_always_cases downgrade_total)

lemma build_always_some: "fst (build_always PARTS rq0 rgb quiet budget owned lvl) c \<noteq> None"
  by (simp add: build_always_cases downgrade_some selected_some del: not_None_eq)

lemma build_always_placeholder:
  "\<not> is_owned owned c \<Longrightarrow> parts_by_category PARTS (slot_name c) = []
     \<Longrightarrow> fst (build_always PARTS rq0 rgb quiet budget owned lvl) c = Some empty_part"
  by (simp add: build_always_cases downgrade_no_pool selected_placeholder)

lemma priority_facts: "distinct priority" "c \<in> set priority"
  by (cases c; simp add: priority_def)+

text \<open>
  C2. An owned category keeps exactly the owned part in the returned build, and the returned
  total is the sum of the prices of the entries of the categories that are not owned.
\<close>

theorem owned_parts_locked:
  "owned c = Some p \<Longrightarrow>
   fst (build_always PARTS rq0 rgb quiet budget owned lvl) c = Some p
   \<and> snd (build_always PARTS rq0 rgb quiet budget owned lvl)
       = sum_list (map (\<lambda>d. price (or_empty (fst (build_always PARTS rq0 rgb quiet budget owned lvl) d)))
                       (filter (\<lambda>d. owned d = None) categories))"
  using build_always_owned [of owned c PARTS rq0 rgb quiet budget lvl]
    build_always_total [of PARTS rq0 rgb quiet budget owned lvl]
  by (simp add: is_owned_def total_missing_def)

theorem owned_parts_locked_witness:
  "(no_owned(GPU := Some ex_owned_gpu)) GPU = Some ex_owned_gpu
   \<and> fst (build_always ex_catalog ex_reqs False False 900 (no_owned(GPU := Some ex_owned_gpu)) Both) GPU
       = Some ex_owned_gpu
   \<and> snd (build_always ex_catalog ex_reqs False False 900 (no_owned(GPU := Some ex_owned_gpu)) Both)
       = 790"
proof -
  have h: "(no_owned(GPU := Some ex_owned_gpu)) GPU = Some ex_owned_gpu" by simp
  have v: "snd (build_always ex_catalog ex_reqs False False 900 (no_owned(GPU := Some ex_owned_gpu)) Both)
       = 790"
    by code_simp
  from owned_parts_locked [of "no_owned(GPU := Some ex_owned_gpu)" GPU ex_owned_gpu
      ex_catalog ex_reqs False False 900 Both, OF h]
  have "fst (build_always ex_catalog ex_reqs False False 900 (no_owned(GPU := Some ex_owned_gpu)) Both) GPU
       = Some ex_owned_gpu"
    by (rule conjunct1)
  with h v show ?thesis by simp
qed

text \<open>
  C1, as the code has it. Every one of the seven categories has an entry that is not
  \<^verbatim>\<open>None\<close>; a category that is not owned and has no part in the catalog gets the empty
  placeholder. (An owned category keeps the owned part, also when the catalog has no part
  of it.) The model has no failing branch: with the catalog's columns typed as in the data
  model, no statement of \<^verbatim>\<open>build_always\<close> can raise.
\<close>

theorem build_complete:
  "(\<forall>c. fst (build_always PARTS rq0 rgb quiet budget owned lvl) c \<noteq> None)
   \<and> (\<forall>c. owned c = None \<and> parts_by_category PARTS (slot_name c) = []
         \<longrightarrow> fst (build_always PARTS rq0 rgb quiet budget owned lvl) c = Some empty_part)"
  using build_always_some build_always_placeholder by (simp add: is_owned_def)

theorem build_complete_witness:
  "no_owned GPU = None \<and> parts_by_category [ex_cpu] (slot_name GPU) = []
   \<and> fst (build_always [ex_cpu] ex_reqs False False 1000 no_owned Both) GPU = Some empty_part
   \<and> fst (build_always [ex_cpu] ex_reqs False False 1000 no_owned Both) CPU = Some ex_cpu"
proof -
  have h: "no_owned GPU = None \<and> parts_by_category [ex_cpu] (slot_name GPU) = []"
    by code_simp
  have c: "fst (build_always [ex_cpu] ex_reqs False False 1000 no_owned Both) CPU = Some ex_cpu"
    by code_simp
  from build_complete [of "[ex_cpu]" ex_reqs False False 1000 no_owned Both] h
  have "fst (build_always [ex_cpu] ex_reqs False False 1000 no_owned Both) GPU = Some empty_part"
    by blast
  with h c show ?thesis by simp
qed

text \<open>
  C1 as stated fails for an owned category: with a catalog that holds one CPU and no GPU,
  and an owned GPU, the GPU entry is the owned part, not the empty placeholder.
\<close>

theorem owned_absent_category_counterexample:
  "[ex_cpu] \<noteq> [] \<and> parts_by_category [ex_cpu] (slot_name GPU) = []
   \<and> fst (build_always [ex_cpu] ex_reqs False False 1000 (no_owned(GPU := Some ex_owned_gpu)) Both) GPU
       = Some ex_owned_gpu
   \<and> ex_owned_gpu \<noteq> empty_part"
  by code_simp

text \<open>
  C5, as the code has it. When the total of the selected build exceeds the budget, the
  result of \<^verbatim>\<open>build_always\<close> is the result of the downgrade loop, and:
  the returned total is the total of the returned build;
  the total is within budget, or no category that is not owned has a catalog part with a
  positive price below the price of its entry;
  each entry is the selected one, or the category is not owned and the entry is a catalog
  part of the category with a positive price below the selected one's, of least price
  among those;
  when a category's entry was replaced, every category before it in the order GPU, CPU,
  Motherboard, RAM, Storage, PSU, Case that is not owned has no positively priced cheaper
  part left;
  when a category's entry was replaced, the total exceeded the budget when the loop came to
  it: the build that has the returned entries at the categories before it in the order and
  the selected entries elsewhere costs more than the budget, so no entry is replaced once
  the recomputed total is within budget;
  every category has an entry.
\<close>

theorem downgrade_best_effort:
  assumes over: "total_missing owned (selected PARTS rq0 rgb quiet budget owned lvl) > of_int budget"
  shows "(let b = selected PARTS rq0 rgb quiet budget owned lvl;
              r = build_always PARTS rq0 rgb quiet budget owned lvl
          in snd r = total_missing owned (fst r)
           \<and> (snd r \<le> of_int budget
                \<or> (\<forall>c. \<not> is_owned owned c \<longrightarrow>
                     (\<forall>q \<in> set (parts_by_category PARTS (slot_name c)).
                        \<not> (0 < price q \<and> price q < price (or_empty (fst r c))))))
           \<and> (\<forall>c. fst r c = b c
                \<or> (\<not> is_owned owned c
                    \<and> (\<exists>p. fst r c = Some p
                          \<and> p \<in> set (parts_by_category PARTS (slot_name c))
                          \<and> 0 < price p \<and> price p < price (or_empty (b c))
                          \<and> (\<forall>q \<in> set (parts_by_category PARTS (slot_name c)).
                                0 < price q \<and> price q < price (or_empty (b c))
                                \<longrightarrow> price p \<le> price q))))
           \<and> (\<forall>pre c post d.
                 [GPU, CPU, Motherboard, RAM, Storage, PSU, Case] = pre @ c # post
                 \<and> fst r c \<noteq> b c \<and> d \<in> set pre \<and> \<not> is_owned owned d
                 \<longrightarrow> (\<forall>q \<in> set (parts_by_category PARTS (slot_name d)).
                        \<not> (0 < price q \<and> price q < price (or_empty (fst r d)))))
           \<and> (\<forall>pre c post.
                 [GPU, CPU, Motherboard, RAM, Storage, PSU, Case] = pre @ c # post
                 \<and> fst r c \<noteq> b c
                 \<longrightarrow> of_int budget
                       < total_missing owned (\<lambda>d. if d \<in> set pre then fst r d else b d))
           \<and> (\<forall>c. fst r c \<noteq> None))"
proof -
  define b where "b = selected PARTS rq0 rgb quiet budget owned lvl"
  define r where "r = build_always PARTS rq0 rgb quiet budget owned lvl"
  have r: "r = downgrade PARTS budget owned priority (b, total_missing owned b)"
    using over by (simp add: r_def b_def build_always_cases)
  have p1: "snd r = total_missing owned (fst r)"
    unfolding r_def by (rule build_always_total)
  have p2: "snd r \<le> of_int budget
      \<or> (\<forall>c. \<not> is_owned owned c \<longrightarrow>
           (\<forall>q \<in> set (parts_by_category PARTS (slot_name c)).
              \<not> (0 < price q \<and> price q < price (or_empty (fst r c)))))"
    using downgrade_stop [OF priority_facts(1), of PARTS budget owned b "total_missing owned b"]
      priority_facts(2)
    unfolding r [symmetric] cheaper_than_Nil_iff by blast
  have p3: "fst r c = b c
      \<or> (\<not> is_owned owned c
          \<and> (\<exists>p. fst r c = Some p
                \<and> p \<in> set (parts_by_category PARTS (slot_name c))
                \<and> 0 < price p \<and> price p < price (or_empty (b c))
                \<and> (\<forall>q \<in> set (parts_by_category PARTS (slot_name c)).
                      0 < price q \<and> price q < price (or_empty (b c))
                      \<longrightarrow> price p \<le> price q)))" for c
  proof -
    from downgrade_subst [OF priority_facts(1), of PARTS budget owned b "total_missing owned b" c]
    consider "fst r c = b c"
      | p ps where "\<not> is_owned owned c" "cheaper_than PARTS c (price (or_empty (b c))) = p # ps"
          "fst r c = Some p"
      unfolding r [symmetric] by blast
    then show ?thesis
    proof cases
      case 1
      then show ?thesis by simp
    next
      case 2
      show ?thesis using 2(1,3) cheaper_than_hd [OF 2(2)] by blast
    qed
  qed
  have p4: "\<forall>q \<in> set (parts_by_category PARTS (slot_name d)).
        \<not> (0 < price q \<and> price q < price (or_empty (fst r d)))"
    if "[GPU, CPU, Motherboard, RAM, Storage, PSU, Case] = pre @ c # post"
      "fst r c \<noteq> b c" "d \<in> set pre" "\<not> is_owned owned d" for pre c post d
  proof -
    have "priority = pre @ c # post" using that(1) by (simp add: priority_def)
    from downgrade_order [OF priority_facts(1) this, of PARTS budget owned b "total_missing owned b" d]
    show ?thesis using that(2,3,4) unfolding r [symmetric] cheaper_than_Nil_iff by blast
  qed
  have p5: "fst r c \<noteq> None" for c
    unfolding r_def by (rule build_always_some)
  have p6: "of_int budget < total_missing owned (\<lambda>d. if d \<in> set pre then fst r d else b d)"
    if "[GPU, CPU, Motherboard, RAM, Storage, PSU, Case] = pre @ c # post" "fst r c \<noteq> b c"
    for pre c post
  proof -
    have "priority = pre @ c # post" using that(1) by (simp add: priority_def)
    from downgrade_replaced_over [OF priority_facts(1) this refl, of PARTS budget owned b]
    show ?thesis using that(2) unfolding r [symmetric] by blast
  qed
  show ?thesis
    unfolding Let_def b_def [symmetric] r_def [symmetric]
    using p1 p2 p3 p4 p5 p6 by blast
qed

theorem downgrade_best_effort_witness:
  "of_int 900 < total_missing no_owned (selected ex_catalog ex_reqs False False 900 no_owned Both)
   \<and> snd (build_always ex_catalog ex_reqs False False 900 no_owned Both)
       = total_missing no_owned (fst (build_always ex_catalog ex_reqs False False 900 no_owned Both))
   \<and> snd (build_always ex_catalog ex_reqs False False 900 no_owned Both) = 890
   \<and> fst (build_always ex_catalog ex_reqs False False 900 no_owned Both) GPU = Some ex_gpu_y
   \<and> fst (build_always ex_catalog ex_reqs False False 900 no_owned Both) Motherboard
       = Some ex_mobo_d5"
proof -
  have over: "of_int 900 < total_missing no_owned (selected ex_catalog ex_reqs False False 900 no_owned Both)"
    by code_simp
  have v: "snd (build_always ex_catalog ex_reqs False False 900 no_owned Both) = 890"
    "fst (build_always ex_catalog ex_reqs False False 900 no_owned Both) GPU = Some ex_gpu_y"
    "fst (build_always ex_catalog ex_reqs False False 900 no_owned Both) Motherboard
       = Some ex_mobo_d5"
    by code_simp+
  from downgrade_best_effort [OF over, unfolded Let_def]
  have "snd (build_always ex_catalog ex_reqs False False 900 no_owned Both)
       = total_missing no_owned (fst (build_always ex_catalog ex_reqs False False 900 no_owned Both))"
    by (rule conjunct1)
  with over v show ?thesis by simp
qed

text \<open>
  C5 as stated fails where the catalog has a part without a price: the loop replaces the
  GPU by the cheapest part with a positive price, although the unpriced GPU (price 0) is a
  catalog part of the category that is strictly cheaper.
\<close>

theorem downgrade_skips_unpriced_counterexample:
  "selected ex_catalog_unpriced ex_reqs False False 1000 no_owned Both GPU = Some ex_gpu_x
   \<and> of_int 1000 < total_missing no_owned (selected ex_catalog_unpriced ex_reqs False False 1000 no_owned Both)
   \<and> fst (build_always ex_catalog_unpriced ex_reqs False False 1000 no_owned Both) GPU = Some ex_gpu_y
   \<and> ex_gpu_unpriced \<in> set (parts_by_category ex_catalog_unpriced (slot_name GPU))
   \<and> price ex_gpu_unpriced < price ex_gpu_y"
  by code_simp

end
